theory Spec2Isabelle
  imports Main "HOL-Library.Word" "HOL-Library.Monad_Syntax"
begin

unbundle bit_operations_syntax

chapter \<open>lambda-nat-proxy: session orchestrator\<close>

text \<open>
  A shallow embedding of the parts of the daemon that the specification's claims are
  about: the control-frame codec and the flow-request reader (package shared), the
  session-id generator, the SOCKS5 request parser of the front-end, the session
  dispatch policy, the keepalive loop, launch gating, the rendezvous poll, the UDP hole
  puncher and the session list of the connection manager.
\<close>

section \<open>Bytes, streams and big-endian integers\<close>

type_synonym byte = "8 word"
type_synonym uint16 = "16 word"
type_synonym uint32 = "32 word"
type_synonym uint64 = "64 word"

text \<open>
  An \<open>io.Reader\<close> is the list of bytes it still has to deliver; it ends with EOF.
  \<open>io.ReadFull r buf\<close> with \<open>len(buf) = n\<close> returns the buffer, the error and the rest
  of the reader: \<open>EOF\<close> when no byte could be read, \<open>ErrUnexpectedEOF\<close> when
  some but not all could. The buffer comes from \<open>make\<close>, so unread positions are 0.
  \<open>DeadlineExceeded\<close> is the error of a stream whose read deadline passes; a list of
  bytes never gives it.
\<close>

datatype io_error = EOF | ErrUnexpectedEOF | DeadlineExceeded

definition ReadFull :: "nat \<Rightarrow> byte list \<Rightarrow> (byte list \<times> io_error option) \<times> byte list" where
  "ReadFull n r =
     (if n \<le> length r then ((take n r, None), drop n r)
      else ((r @ replicate (n - length r) 0,
             Some (if r = [] then EOF else ErrUnexpectedEOF)), []))"

text \<open>\<open>binary.BigEndian\<close>: \<open>PutUint64\<close>, \<open>Uint64\<close>, \<open>PutUint32\<close>, \<open>Uint32\<close>, \<open>Uint16\<close>.\<close>

definition PutUint64 :: "uint64 \<Rightarrow> byte list" where
  "PutUint64 v =
     [ucast (drop_bit 56 v), ucast (drop_bit 48 v), ucast (drop_bit 40 v),
      ucast (drop_bit 32 v), ucast (drop_bit 24 v), ucast (drop_bit 16 v),
      ucast (drop_bit 8 v), ucast v]"

definition Uint64 :: "byte list \<Rightarrow> uint64" where
  "Uint64 b =
     (ucast (b ! 7) OR push_bit 8 (ucast (b ! 6)) OR push_bit 16 (ucast (b ! 5))
      OR push_bit 24 (ucast (b ! 4)) OR push_bit 32 (ucast (b ! 3))
      OR push_bit 40 (ucast (b ! 2)) OR push_bit 48 (ucast (b ! 1))
      OR push_bit 56 (ucast (b ! 0)))"

definition PutUint32 :: "uint32 \<Rightarrow> byte list" where
  "PutUint32 v =
     [ucast (drop_bit 24 v), ucast (drop_bit 16 v), ucast (drop_bit 8 v), ucast v]"

definition Uint32 :: "byte list \<Rightarrow> uint32" where
  "Uint32 b =
     (ucast (b ! 3) OR push_bit 8 (ucast (b ! 2)) OR push_bit 16 (ucast (b ! 1))
      OR push_bit 24 (ucast (b ! 0)))"

definition Uint16 :: "byte list \<Rightarrow> uint16" where
  "Uint16 b = (ucast (b ! 1) OR push_bit 8 (ucast (b ! 0)))"

text \<open>
  A Go \<open>int\<close>, \<open>int64\<close> or \<open>time.Duration\<close> is kept as an integer; where the
  source adds to one or multiplies one, \<open>wrap64\<close> is the signed 64-bit wrap-around of
  the result.
\<close>

definition wrap64 :: "int \<Rightarrow> int" where
  "wrap64 x = (x + 2 ^ 63) mod 2 ^ 64 - 2 ^ 63"

section \<open>Control protocol (package shared)\<close>

definition OpPing :: byte where "OpPing = 0x01"
definition OpPong :: byte where "OpPong = 0x02"
definition OpShutdown :: byte where "OpShutdown = 0x03"

text \<open>
  The writer is a buffer that accepts every write (a \<open>bytes.Buffer\<close>, as in the
  package's tests): a write appends to the bytes written so far.
\<close>

definition writeByte :: "byte list \<Rightarrow> byte \<Rightarrow> byte list" where
  "writeByte w b = w @ [b]"

definition writeUint64 :: "byte list \<Rightarrow> uint64 \<Rightarrow> byte list" where
  "writeUint64 w v = w @ PutUint64 v"

definition WritePing :: "byte list \<Rightarrow> uint64 \<Rightarrow> byte list" where
  "WritePing w nonce = writeUint64 (writeByte w OpPing) nonce"

definition WritePong :: "byte list \<Rightarrow> uint64 \<Rightarrow> byte list" where
  "WritePong w nonce = writeUint64 (writeByte w OpPong) nonce"

definition WriteShutdown :: "byte list \<Rightarrow> byte list" where
  "WriteShutdown w = writeByte w OpShutdown"

text \<open>\<open>readByte\<close> returns \<open>buf[0]\<close> together with the error of \<open>io.ReadFull\<close>.\<close>

definition readByte :: "byte list \<Rightarrow> (byte \<times> io_error option) \<times> byte list" where
  "readByte r = (case ReadFull 1 r of ((buf, err), r') \<Rightarrow> ((buf ! 0, err), r'))"

definition readUint64 :: "byte list \<Rightarrow> (uint64 \<times> io_error option) \<times> byte list" where
  "readUint64 r =
     (case ReadFull 8 r of
        ((buf, Some e), r') \<Rightarrow> ((0, Some e), r')
      | ((buf, None), r') \<Rightarrow> ((Uint64 buf, None), r'))"

datatype ctl_error = FailedReadOpcode io_error | FailedReadNonce io_error | UnknownOpcode byte

text \<open>
  \<open>ReadControlMessage\<close> returns the triple \<open>(opcode, nonce, err)\<close> of the source and
  the rest of the reader.
\<close>

definition ReadControlMessage ::
  "byte list \<Rightarrow> (byte \<times> uint64 \<times> ctl_error option) \<times> byte list" where
  "ReadControlMessage r =
     (case readByte r of
        ((opcode, Some e), r') \<Rightarrow> ((0, 0, Some (FailedReadOpcode e)), r')
      | ((opcode, None), r') \<Rightarrow>
          (if opcode = OpPing \<or> opcode = OpPong then
             (case readUint64 r' of
                ((nonce, Some e), r'') \<Rightarrow> ((opcode, 0, Some (FailedReadNonce e)), r'')
              | ((nonce, None), r'') \<Rightarrow> ((opcode, nonce, None), r''))
           else if opcode = OpShutdown then ((opcode, 0, None), r')
           else ((opcode, 0, Some (UnknownOpcode opcode)), r')))"

section \<open>Flow request (package shared)\<close>

definition MaxTargetAddressLength :: nat where "MaxTargetAddressLength = 1024"

datatype target_error =
  FailedReadLength io_error | TargetTooLong uint32 | FailedReadTarget io_error | EmptyTarget

text \<open>
  \<open>ReadSOCKS5TargetAddress\<close>: the target is a Go string, a sequence of bytes, kept
  here as the byte list it is converted from.
\<close>

definition ReadSOCKS5TargetAddress :: "byte list \<Rightarrow> (target_error + byte list) \<times> byte list" where
  "ReadSOCKS5TargetAddress stream =
     (case ReadFull 4 stream of
        ((lengthBuf, Some e), r) \<Rightarrow> (Inl (FailedReadLength e), r)
      | ((lengthBuf, None), r) \<Rightarrow>
          (let targetLen = Uint32 lengthBuf in
           if unat targetLen > MaxTargetAddressLength then (Inl (TargetTooLong targetLen), r)
           else (case ReadFull (unat targetLen) r of
                   ((targetBuf, Some e), r') \<Rightarrow> (Inl (FailedReadTarget e), r')
                 | ((targetBuf, None), r') \<Rightarrow>
                     (if targetBuf = [] then (Inl EmptyTarget, r')
                      else (Inr targetBuf, r')))))"

definition WriteSOCKS5TargetAddress :: "byte list \<Rightarrow> byte list \<Rightarrow> byte list" where
  "WriteSOCKS5TargetAddress stream target =
     (stream @ PutUint32 (word_of_nat (length target))) @ target"

section \<open>Session identifiers (package shared)\<close>

text \<open>
  Go strings that hold text are \<open>string\<close>s here. \<open>hex.EncodeToString\<close> writes two
  characters of \<open>hextable\<close> for each byte, the high nibble first.
\<close>

definition hextable :: string where "hextable = ''0123456789abcdef''"

definition hex_EncodeToString :: "byte list \<Rightarrow> string" where
  "hex_EncodeToString src =
     concat (map (\<lambda>v. [hextable ! unat (drop_bit 4 v), hextable ! unat (v AND 0x0f)]) src)"

text \<open>\<open>fmt.Sprintf("%d", i)\<close>: the decimal digits of an integer, with a sign when negative.\<close>

definition digits :: string where "digits = ''0123456789''"

function decimal :: "int \<Rightarrow> string" where
  "decimal n =
     (if n < 10 then [digits ! nat n] else decimal (n div 10) @ [digits ! nat (n mod 10)])"
  by pat_completeness auto
termination
  by (relation "measure nat") auto

declare decimal.simps [simp del]

definition Sprintf_d :: "int \<Rightarrow> string" where
  "Sprintf_d i = (if i < 0 then CHR ''-'' # decimal (- i) else decimal i)"

text \<open>The conversions \<open>[]byte(s)\<close> and \<open>string(b)\<close>.\<close>

definition bytes_of_string :: "string \<Rightarrow> byte list" where
  "bytes_of_string s = map (\<lambda>c. of_char c) s"

definition string_of_bytes :: "byte list \<Rightarrow> string" where
  "string_of_bytes b = map (\<lambda>v. char_of (uint v)) b"

text \<open>
  \<open>GenerateTimestampID\<close> takes the value of \<open>time.Now().UnixNano()\<close>.
  \<open>GenerateSessionID\<close> takes what \<open>rand.Read\<close> did with the 8-byte buffer (\<open>None\<close>
  when it returned an error, otherwise the buffer it filled) and the clock for the
  fallback.
\<close>

definition GenerateTimestampID :: "int \<Rightarrow> string" where
  "GenerateTimestampID timestamp = hex_EncodeToString (bytes_of_string (Sprintf_d timestamp))"

definition GenerateSessionID :: "byte list option \<Rightarrow> int \<Rightarrow> string" where
  "GenerateSessionID rnd now =
     (case rnd of
        None \<Rightarrow> GenerateTimestampID now
      | Some bytes \<Rightarrow> hex_EncodeToString bytes)"

section \<open>SOCKS5 front-end: parsing the CONNECT request\<close>

definition SOCKS5Version :: byte where "SOCKS5Version = 0x05"
definition SOCKS5Connect :: byte where "SOCKS5Connect = 0x01"
definition SOCKS5IPv4 :: byte where "SOCKS5IPv4 = 0x01"
definition SOCKS5DomainName :: byte where "SOCKS5DomainName = 0x03"
definition OptimizedBufferSize :: nat where "OptimizedBufferSize = 32 * 1024"

text \<open>
  Go checks every index and slice expression at run time and panics when it is out of
  range: \<open>buf[i]\<close> needs \<open>i < len(buf)\<close>, \<open>buf[lo:hi]\<close> needs
  \<open>lo \<le> hi \<le> cap(buf)\<close>. \<open>None\<close> is the panic. The request buffer comes from
  \<open>make([]byte, n)\<close>, so its capacity is its length. \<open>binary.BigEndian.Uint16\<close>
  panics on a slice shorter than 2.
\<close>

definition go_index :: "'a list \<Rightarrow> nat \<Rightarrow> 'a option" where
  "go_index buf i = (if i < length buf then Some (buf ! i) else None)"

definition go_slice :: "'a list \<Rightarrow> nat \<Rightarrow> nat \<Rightarrow> 'a list option" where
  "go_slice buf lo hi =
     (if lo \<le> hi \<and> hi \<le> length buf then Some (take (hi - lo) (drop lo buf)) else None)"

definition go_Uint16 :: "byte list \<Rightarrow> uint16 option" where
  "go_Uint16 b = (if 1 < length b then Some (Uint16 b) else None)"

text \<open>
  The handler leaves the parse either by returning early (\<open>Rejected\<close>: not a CONNECT
  request, or an unsupported address type) or with the target string \<open>host:port\<close>.
\<close>

datatype parse_result = Rejected | Target string

definition Sprintf_ipv4 :: "byte \<Rightarrow> byte \<Rightarrow> byte \<Rightarrow> byte \<Rightarrow> string" where
  "Sprintf_ipv4 a b c d =
     Sprintf_d (uint a) @ ''.'' @ Sprintf_d (uint b) @ ''.'' @ Sprintf_d (uint c) @ ''.''
       @ Sprintf_d (uint d)"

definition Sprintf_target :: "string \<Rightarrow> uint16 \<Rightarrow> string" where
  "Sprintf_target targetAddr targetPort = targetAddr @ '':'' @ Sprintf_d (uint targetPort)"

text \<open>
  The parse of \<open>handleSOCKS5ConnectionWithSessionAndContext\<close> (the same lines are in
  \<open>handleSOCKS5Connection\<close>). \<open>domainLen := buf[4]\<close> is a \<open>byte\<close>, and so are
  \<open>5+domainLen\<close> and \<open>7+domainLen\<close>: the additions are those of \<open>8 word\<close>.
\<close>

definition parse_request :: "byte list \<Rightarrow> parse_result option" where
  "parse_request buf = do {
     b0 \<leftarrow> go_index buf 0;
     if b0 \<noteq> SOCKS5Version then Some Rejected
     else do {
       b1 \<leftarrow> go_index buf 1;
       if b1 \<noteq> SOCKS5Connect then Some Rejected
       else do {
         atyp \<leftarrow> go_index buf 3;
         if atyp = SOCKS5IPv4 then do {
           a \<leftarrow> go_index buf 4;
           b \<leftarrow> go_index buf 5;
           c \<leftarrow> go_index buf 6;
           d \<leftarrow> go_index buf 7;
           p \<leftarrow> go_slice buf 8 10;
           targetPort \<leftarrow> go_Uint16 p;
           Some (Target (Sprintf_target (Sprintf_ipv4 a b c d) targetPort))
         }
         else if atyp = SOCKS5DomainName then do {
           domainLen \<leftarrow> go_index buf 4;
           name \<leftarrow> go_slice buf 5 (unat (5 + domainLen));
           p \<leftarrow> go_slice buf (unat (5 + domainLen)) (unat (7 + domainLen));
           targetPort \<leftarrow> go_Uint16 p;
           Some (Target (Sprintf_target (string_of_bytes name) targetPort))
         }
         else Some Rejected
       }
     }
   }"

text \<open>
  \<open>clientConn.Read(buf)\<close> overwrites the front of the buffer with the bytes that
  arrived and leaves the rest as it was. The handler reads the greeting and the request
  into the same buffer of \<open>OptimizedBufferSize\<close> bytes; a read that delivers nothing
  is the read error on which the handler returns.
\<close>

definition conn_Read :: "byte list \<Rightarrow> byte list \<Rightarrow> byte list" where
  "conn_Read buf data = take (length buf) data @ drop (length data) buf"

definition handle_request :: "byte list \<Rightarrow> byte list \<Rightarrow> parse_result option" where
  "handle_request hello request =
     (if hello = [] then Some Rejected
      else do {
        let buf = conn_Read (replicate OptimizedBufferSize 0) hello;
        v \<leftarrow> go_index buf 0;
        if v \<noteq> SOCKS5Version then Some Rejected
        else if request = [] then Some Rejected
        else parse_request (conn_Read buf request)
      })"

section \<open>Sessions and the dispatch policy (package manager)\<close>

text \<open>
  A session's role is a Go string. Of the struct's fields the model keeps the
  identifier, the role, the health flag and the missed-ping counter (both behind the
  health mutex), and whether the QUIC connection's context is done.
\<close>

definition RolePrimary :: string where "RolePrimary = ''primary''"
definition RoleSecondary :: string where "RoleSecondary = ''secondary''"
definition RoleDraining :: string where "RoleDraining = ''draining''"

record Session =
  ID :: string
  Role :: string
  healthy :: bool
  missedPings :: int
  quic_closed :: bool

definition IsHealthy :: "Session \<Rightarrow> bool" where "IsHealthy s = healthy s"
definition SetHealthy :: "Session \<Rightarrow> bool \<Rightarrow> Session" where "SetHealthy s h = s\<lparr>healthy := h\<rparr>"
definition IncrementMissedPings :: "Session \<Rightarrow> Session \<times> int" where
  "IncrementMissedPings s =
     (s\<lparr>missedPings := wrap64 (missedPings s + 1)\<rparr>, wrap64 (missedPings s + 1))"
definition ResetMissedPings :: "Session \<Rightarrow> Session" where
  "ResetMissedPings s = s\<lparr>missedPings := 0\<rparr>"
definition IsPrimary :: "Session \<Rightarrow> bool" where "IsPrimary s = (Role s = RolePrimary)"
definition IsSecondary :: "Session \<Rightarrow> bool" where "IsSecondary s = (Role s = RoleSecondary)"
definition IsDraining :: "Session \<Rightarrow> bool" where "IsDraining s = (Role s = RoleDraining)"

text \<open>
  \<open>GetCurrent\<close> makes up to three passes over the session list, each one stopping at
  the first session that passes its test.
\<close>

definition GetCurrent :: "Session list \<Rightarrow> Session option" where
  "GetCurrent sessions =
     (case find (\<lambda>session. IsPrimary session \<and> IsHealthy session) sessions of
        Some selected \<Rightarrow> Some selected
      | None \<Rightarrow>
          (case find (\<lambda>session. IsSecondary session \<and> IsHealthy session) sessions of
             Some selected \<Rightarrow> Some selected
           | None \<Rightarrow> find (\<lambda>session. IsHealthy session \<and> \<not> IsDraining session) sessions))"

text \<open>A session literal with a role and a health flag, as the package's tests build them.\<close>

definition session_with :: "string \<Rightarrow> string \<Rightarrow> bool \<Rightarrow> Session" where
  "session_with sessionID role h =
     \<lparr>ID = sessionID, Role = role, healthy = h, missedPings = 0, quic_closed = False\<rparr>"

section \<open>The keepalive loop (Launcher.startHealthCheck)\<close>

text \<open>
  One iteration of the loop is decided by what the \<open>select\<close> picks: the context is
  done, the QUIC connection is done, or the ticker fired. What happens in a tick depends
  on the environment: whether the context is cancelled before the ping or after the
  read, whether writing the ping fails, and what \<open>ReadControlMessage\<close> returns under
  the 3 s read deadline (a deadline that passes is a read error). The loop's state is
  the session, the local nonce and whether the loop is still running.
\<close>

record hc_tick =
  cancelled_before_ping :: bool
  ping_write_fails :: bool
  reply :: "byte \<times> uint64 \<times> ctl_error option"
  cancelled_after_read :: bool

datatype hc_event = CtxDone | QuicDone | Tick hc_tick

record hc_state =
  sess :: Session
  nonce :: uint64
  running :: bool

definition health_tick :: "hc_tick \<Rightarrow> hc_state \<Rightarrow> hc_state" where
  "health_tick t st =
     (let st1 = st\<lparr>nonce := nonce st + 1\<rparr> in
      if cancelled_before_ping t then st1\<lparr>running := False\<rparr>
      else if ping_write_fails t then
        st1\<lparr>sess := SetHealthy (sess st1) False, running := False\<rparr>
      else if cancelled_after_read t then st1\<lparr>running := False\<rparr>
      else
        (case reply t of
           (opcode, receivedNonce, Some err) \<Rightarrow>
             (case IncrementMissedPings (sess st1) of
                (s', missedCount) \<Rightarrow>
                  if missedCount \<ge> 3 then
                    st1\<lparr>sess := SetHealthy s' False, running := False\<rparr>
                  else st1\<lparr>sess := s'\<rparr>)
         | (opcode, receivedNonce, None) \<Rightarrow>
             if opcode = OpPong \<and> receivedNonce = nonce st1 then
               st1\<lparr>sess := SetHealthy (ResetMissedPings (sess st1)) True\<rparr>
             else if opcode = OpShutdown then
               st1\<lparr>sess := SetHealthy (sess st1) False, running := False\<rparr>
             else st1))"

definition health_step :: "hc_state \<Rightarrow> hc_event \<Rightarrow> hc_state" where
  "health_step st ev =
     (if running st then
        (case ev of
           CtxDone \<Rightarrow> st\<lparr>running := False\<rparr>
         | QuicDone \<Rightarrow> st\<lparr>running := False\<rparr>
         | Tick t \<Rightarrow> health_tick t st)
      else st)"

text \<open>
  \<open>Launch\<close> builds the session with a zero counter and no role, marks it healthy and
  starts the loop with nonce 0.
\<close>

definition launched :: "string \<Rightarrow> Session" where
  "launched sessionID =
     SetHealthy \<lparr>ID = sessionID, Role = [], healthy = False, missedPings = 0,
       quic_closed = False\<rparr> True"

definition startHealthCheck :: "Session \<Rightarrow> hc_event list \<Rightarrow> hc_state" where
  "startHealthCheck s evs = foldl health_step \<lparr>sess = s, nonce = 0, running = True\<rparr> evs"

text \<open>
  A tick in which the read of the reply fails (error or timeout), and a tick in which the
  reply is the pong with the nonce just sent; in both the ping was written and the context
  is not cancelled.
\<close>

definition read_failed :: "hc_tick \<Rightarrow> bool" where
  "read_failed t =
     (\<not> cancelled_before_ping t \<and> \<not> ping_write_fails t \<and> \<not> cancelled_after_read t
      \<and> snd (snd (reply t)) \<noteq> None)"

definition pong_matches :: "hc_tick \<Rightarrow> hc_state \<Rightarrow> bool" where
  "pong_matches t st =
     (\<not> cancelled_before_ping t \<and> \<not> ping_write_fails t \<and> \<not> cancelled_after_read t
      \<and> reply t = (OpPong, nonce st + 1, None))"

text \<open>
  \<open>probes_only st evs\<close>: from the state \<open>st\<close> on, every event of \<open>evs\<close> is a
  tick whose read fails or whose reply is the matching pong. \<open>counter_decides\<close>: the
  counter is between 0 and 3, and the session is healthy, and the loop running, exactly
  while it is below 3.
\<close>

fun probes_only :: "hc_state \<Rightarrow> hc_event list \<Rightarrow> bool" where
  "probes_only st [] = True"
| "probes_only st (ev # evs) =
     ((case ev of Tick t \<Rightarrow> read_failed t \<or> pong_matches t st | _ \<Rightarrow> False)
      \<and> probes_only (health_step st ev) evs)"

definition counter_decides :: "hc_state \<Rightarrow> bool" where
  "counter_decides st =
     (0 \<le> missedPings (sess st) \<and> missedPings (sess st) \<le> 3
      \<and> (healthy (sess st) \<longleftrightarrow> missedPings (sess st) < 3)
      \<and> (running st \<longleftrightarrow> missedPings (sess st) < 3))"

text \<open>Example ticks: a read that times out, and a pong carrying a nonce.\<close>

definition timeout_tick :: hc_tick where
  "timeout_tick =
     \<lparr>cancelled_before_ping = False, ping_write_fails = False,
      reply = (0, 0, Some (FailedReadOpcode DeadlineExceeded)), cancelled_after_read = False\<rparr>"

definition pong_tick :: "uint64 \<Rightarrow> hc_tick" where
  "pong_tick n =
     \<lparr>cancelled_before_ping = False, ping_write_fails = False,
      reply = (OpPong, n, None), cancelled_after_read = False\<rparr>"

section \<open>Launch gating (package manager)\<close>

text \<open>
  Times are nanoseconds. A \<open>time.Duration\<close> is a signed 64-bit count of nanoseconds:
  \<open>wrap64\<close> is the wrap-around of its multiplication, and \<open>time.Since\<close> saturates at
  the largest and smallest duration. \<open>failedAttempts\<close> is a Go \<open>int\<close>. The two
  functions read the clock through their argument \<open>now\<close>.
\<close>

record LaunchState =
  launchingPrimary :: bool
  launchingSecondary :: bool
  lastLaunchAttempt :: int
  failedAttempts :: int

definition Second :: int where "Second = 1000000000"
definition maxDuration :: int where "maxDuration = 2 ^ 63 - 1"
definition minDuration :: int where "minDuration = - (2 ^ 63)"

definition time_Since :: "int \<Rightarrow> int \<Rightarrow> int" where
  "time_Since now t =
     (if now - t > maxDuration then maxDuration
      else if now - t < minDuration then minDuration
      else now - t)"

definition canLaunchPrimary :: "int \<Rightarrow> LaunchState \<Rightarrow> bool \<times> LaunchState" where
  "canLaunchPrimary now ls =
     (if launchingPrimary ls then (False, ls)
      else
        (let cooldown =
           (if failedAttempts ls > 2 then wrap64 (wrap64 (failedAttempts ls * 10) * Second)
            else 5 * Second)
         in if time_Since now (lastLaunchAttempt ls) < cooldown then (False, ls)
            else (True, ls\<lparr>launchingPrimary := True, lastLaunchAttempt := now\<rparr>)))"

definition canLaunchSecondary :: "int \<Rightarrow> LaunchState \<Rightarrow> bool \<times> LaunchState" where
  "canLaunchSecondary now ls =
     (if launchingSecondary ls then (False, ls)
      else
        (let cooldown =
           (if failedAttempts ls > 2 then wrap64 (wrap64 (failedAttempts ls * 5) * Second)
            else 2 * Second)
         in if time_Since now (lastLaunchAttempt ls) < cooldown then (False, ls)
            else (True, ls\<lparr>launchingSecondary := True, lastLaunchAttempt := now\<rparr>)))"

definition clearLaunchState :: "bool \<Rightarrow> bool \<Rightarrow> LaunchState \<Rightarrow> LaunchState" where
  "clearLaunchState isPrimary success ls =
     (let ls1 = (if isPrimary then ls\<lparr>launchingPrimary := False\<rparr>
                 else ls\<lparr>launchingSecondary := False\<rparr>)
      in if success then ls1\<lparr>failedAttempts := 0\<rparr>
         else ls1\<lparr>failedAttempts := wrap64 (failedAttempts ls1 + 1)\<rparr>)"

text \<open>
  What a run of \<open>launchPrimarySession\<close> does to the launch state: the explicit call
  on the path taken, then the deferred \<open>clearLaunchState(true, false)\<close>, which runs on
  every return.
\<close>

datatype launch_outcome = Redundant | LaunchFailed | Discarded | Launched

definition launchPrimarySession_state :: "launch_outcome \<Rightarrow> LaunchState \<Rightarrow> LaunchState" where
  "launchPrimarySession_state outcome ls =
     (case outcome of
        LaunchFailed \<Rightarrow> clearLaunchState True False ls
      | _ \<Rightarrow> clearLaunchState True False (clearLaunchState True True ls))"

section \<open>Rendezvous store: waiting for the worker's reply\<close>

text \<open>
  \<open>WaitForLambdaResponse\<close> of the S3 coordinator. Times are milliseconds. The
  environment of the loop is the object store (what a \<open>GetObject\<close> of a key issued at
  a time returns: no such key, another error, an object that does not decode, or the
  reply), the time each \<open>GetObject\<close> takes, and the time at which the context is
  cancelled, if ever. The function returns its result together with the log of the
  \<open>GetObject\<close> calls it made (key and time of issue). Each turn of the loop moves
  the clock by at least the poll interval, so the loop ends.
\<close>

record LambdaResponse =
  SessionID :: string
  LambdaPublicIP :: string
  LambdaPublicPort :: int
  Status :: string
  Timestamp :: int

definition ResponsePollInterval :: nat where "ResponsePollInterval = 500"

definition ResponseKey :: "string \<Rightarrow> string" where
  "ResponseKey sessionID = ''punch-response/'' @ sessionID @ ''.json''"

datatype fetch_result = NoSuchKey | FetchError | Undecodable | Reply LambdaResponse

datatype wait_error = ContextDone | ReplyTimeout

fun decoded :: "fetch_result \<Rightarrow> LambdaResponse option" where
  "decoded (Reply r) = Some r"
| "decoded NoSuchKey = None"
| "decoded FetchError = None"
| "decoded Undecodable = None"

fun ctx_done :: "nat option \<Rightarrow> nat \<Rightarrow> bool" where
  "ctx_done None t = False"
| "ctx_done (Some c) t = (c \<le> t)"

function poll ::
  "(string \<Rightarrow> nat \<Rightarrow> fetch_result) \<Rightarrow> (nat \<Rightarrow> nat) \<Rightarrow> nat option \<Rightarrow> string \<Rightarrow> nat \<Rightarrow> nat
     \<Rightarrow> (wait_error + LambdaResponse) \<times> (string \<times> nat) list" where
  "poll store lat cancel key deadline now =
     (if now < deadline then
        (if ctx_done cancel now then (Inl ContextDone, [])
         else
           (case decoded (store key now) of
              Some response \<Rightarrow> (Inr response, [(key, now)])
            | None \<Rightarrow>
                (if ctx_done cancel (now + lat now + ResponsePollInterval)
                 then (Inl ContextDone, [(key, now)])
                 else
                   (case poll store lat cancel key deadline
                           (now + lat now + ResponsePollInterval) of
                      (res, log) \<Rightarrow> (res, (key, now) # log)))))
      else (Inl ReplyTimeout, []))"
  by pat_completeness auto
termination
  by (relation "measure (\<lambda>(store, lat, cancel, key, deadline, now). deadline - now)")
    (auto simp: ResponsePollInterval_def)

declare poll.simps [simp del]

definition WaitForLambdaResponse ::
  "(string \<Rightarrow> nat \<Rightarrow> fetch_result) \<Rightarrow> (nat \<Rightarrow> nat) \<Rightarrow> nat option \<Rightarrow> string \<Rightarrow> nat \<Rightarrow> nat
     \<Rightarrow> (wait_error + LambdaResponse) \<times> (string \<times> nat) list" where
  "WaitForLambdaResponse store lat cancel sessionID timeout now =
     poll store lat cancel (ResponseKey sessionID) (now + timeout) now"

text \<open>
  \<open>poll_time lat now i\<close> is the time of the \<open>i\<close>-th poll of a loop that starts at
  \<open>now\<close>, when each fetch takes \<open>lat\<close> and is followed by a wait of 500 ms.
\<close>

fun poll_time :: "(nat \<Rightarrow> nat) \<Rightarrow> nat \<Rightarrow> nat \<Rightarrow> nat" where
  "poll_time lat now 0 = now"
| "poll_time lat now (Suc i) = poll_time lat (now + lat now + 500) i"

text \<open>
  Example environments: a store in which the key never appears, a store in which the
  worker's reply appears under its key at a given time, and fetches that take no time.
\<close>

definition empty_store :: "string \<Rightarrow> nat \<Rightarrow> fetch_result" where
  "empty_store key t = NoSuchKey"

definition store_with_reply :: "nat \<Rightarrow> LambdaResponse \<Rightarrow> string \<Rightarrow> nat \<Rightarrow> fetch_result" where
  "store_with_reply ready r key t =
     (if key = ResponseKey (SessionID r) \<and> ready \<le> t then Reply r else NoSuchKey)"

definition no_latency :: "nat \<Rightarrow> nat" where
  "no_latency t = 0"

definition example_reply :: LambdaResponse where
  "example_reply =
     \<lparr>SessionID = ''abc'', LambdaPublicIP = ''198.51.100.5'', LambdaPublicPort = 55555,
      Status = ''ready'', Timestamp = 0\<rparr>"

section \<open>UDP hole punching (package shared)\<close>

text \<open>
  \<open>PerformNATHolePunch\<close> runs three routines on one socket: the sender of the burst,
  the reader, and the caller waiting in a \<open>select\<close>. The model is their interleaving:
  a state and one step for each thing a routine can do, taken in the order of a schedule.
  \<^item> The sender writes \<open>PUNCH:{sessionID}:{i}\<close> for \<open>i = 0, ..., 49\<close> and then
    closes \<open>punchDone\<close>; nothing in its loop looks at the other routines.
  \<^item> The reader sets a read deadline and reads; on a datagram without error whose
    source equals the remote address (\<open>net.IP.Equal\<close> and equal ports) and whose
    payload has the prefix \<open>PUNCH:\<close> it offers success on the unbuffered channel and
    returns once the offer is taken; otherwise it reads again.
  \<^item> The caller takes the success offer or the timer, whichever the \<open>select\<close> picks
    among those ready. After success it waits for \<open>punchDone\<close>, clears the read
    deadline and returns nil; after the timer it clears the read deadline and returns
    the timeout error.
  A step that its routine cannot take in the current state leaves the state unchanged.
\<close>

definition HolePunchPacketCount :: nat where "HolePunchPacketCount = 50"

record UDPAddr =
  IP :: "byte list"
  Port :: int

definition v4InV6Prefix :: "byte list" where
  "v4InV6Prefix = [0, 0, 0, 0, 0, 0, 0, 0, 0, 0, 0xff, 0xff]"

definition IP_Equal :: "byte list \<Rightarrow> byte list \<Rightarrow> bool" where
  "IP_Equal ip x =
     (if length ip = length x then ip = x
      else if length ip = 4 \<and> length x = 16 then take 12 x = v4InV6Prefix \<and> ip = drop 12 x
      else if length ip = 16 \<and> length x = 4 then take 12 ip = v4InV6Prefix \<and> drop 12 ip = x
      else False)"

definition HasPrefix :: "string \<Rightarrow> string \<Rightarrow> bool" where
  "HasPrefix s prefix = (length prefix \<le> length s \<and> take (length prefix) s = prefix)"

definition punch_message :: "string \<Rightarrow> nat \<Rightarrow> string" where
  "punch_message sessionID i = ''PUNCH:'' @ sessionID @ '':'' @ Sprintf_d (int i)"

datatype read_outcome = ReadError | Datagram UDPAddr string

fun punch_matches :: "UDPAddr \<Rightarrow> read_outcome \<Rightarrow> bool" where
  "punch_matches remoteAddr ReadError = False"
| "punch_matches remoteAddr (Datagram addr data) =
     (IP_Equal (IP addr) (IP remoteAddr) \<and> Port addr = Port remoteAddr
      \<and> HasPrefix data ''PUNCH:'')"

datatype punch_error = PunchTimeout

datatype reader_state = Reading | Offering | ReaderDone

datatype main_state = Waiting | AwaitingSender | Returned "punch_error option"

record punch_state =
  sent :: "string list"
  punchDone :: bool
  reader :: reader_state
  received :: "read_outcome list"
  main :: main_state
  readDeadline :: bool
  timerFired :: bool

datatype punch_event =
  SenderStep | ReaderStep read_outcome | TimerFires | MainSuccess | MainTimeout | MainFinish

definition punch_init :: punch_state where
  "punch_init =
     \<lparr>sent = [], punchDone = False, reader = Reading, received = [], main = Waiting,
      readDeadline = False, timerFired = False\<rparr>"

fun punch_step :: "string \<Rightarrow> UDPAddr \<Rightarrow> punch_state \<Rightarrow> punch_event \<Rightarrow> punch_state" where
  "punch_step sessionID remoteAddr st SenderStep =
     (if length (sent st) < HolePunchPacketCount
      then st\<lparr>sent := sent st @ [punch_message sessionID (length (sent st))]\<rparr>
      else st\<lparr>punchDone := True\<rparr>)"
| "punch_step sessionID remoteAddr st (ReaderStep out) =
     (if reader st = Reading then
        (if punch_matches remoteAddr out
         then st\<lparr>readDeadline := True, received := received st @ [out], reader := Offering\<rparr>
         else st\<lparr>readDeadline := True, received := received st @ [out]\<rparr>)
      else st)"
| "punch_step sessionID remoteAddr st TimerFires = st\<lparr>timerFired := True\<rparr>"
| "punch_step sessionID remoteAddr st MainSuccess =
     (if main st = Waiting \<and> reader st = Offering
      then st\<lparr>main := AwaitingSender, reader := ReaderDone\<rparr>
      else st)"
| "punch_step sessionID remoteAddr st MainTimeout =
     (if main st = Waiting \<and> timerFired st
      then st\<lparr>readDeadline := False, main := Returned (Some PunchTimeout)\<rparr>
      else st)"
| "punch_step sessionID remoteAddr st MainFinish =
     (if main st = AwaitingSender \<and> punchDone st
      then st\<lparr>readDeadline := False, main := Returned None\<rparr>
      else st)"

definition PerformNATHolePunch :: "string \<Rightarrow> UDPAddr \<Rightarrow> punch_event list \<Rightarrow> punch_state" where
  "PerformNATHolePunch sessionID remoteAddr evs =
     foldl (punch_step sessionID remoteAddr) punch_init evs"

text \<open>
  What holds in every state of every schedule; each step keeps it.
\<close>

definition punch_inv :: "string \<Rightarrow> UDPAddr \<Rightarrow> punch_state \<Rightarrow> bool" where
  "punch_inv sessionID remoteAddr st =
     (sent st = map (punch_message sessionID) [0..<length (sent st)]
      \<and> length (sent st) \<le> HolePunchPacketCount
      \<and> (punchDone st \<longrightarrow> length (sent st) = HolePunchPacketCount)
      \<and> (reader st = Reading \<longrightarrow>
            (\<forall>out \<in> set (received st). \<not> punch_matches remoteAddr out)
            \<and> (main st = Waiting \<or> main st = Returned (Some PunchTimeout)))
      \<and> (reader st \<noteq> Reading \<longrightarrow>
            received st \<noteq> [] \<and> punch_matches remoteAddr (last (received st))
            \<and> (\<forall>out \<in> set (butlast (received st)). \<not> punch_matches remoteAddr out))
      \<and> (reader st = Offering \<longrightarrow> main st = Waiting \<or> main st = Returned (Some PunchTimeout))
      \<and> (reader st = ReaderDone \<longrightarrow> main st = AwaitingSender \<or> main st = Returned None)
      \<and> (main st = AwaitingSender \<longrightarrow> reader st = ReaderDone)
      \<and> (main st = Returned None \<longrightarrow>
            reader st = ReaderDone \<and> punchDone st \<and> \<not> readDeadline st)
      \<and> (main st = Returned (Some PunchTimeout) \<longrightarrow> timerFired st))"

text \<open>
  An example peer, and a schedule in which the peer's datagram arrives after the first
  datagram of the burst has been sent and the caller takes the success at once.
\<close>

definition example_peer :: UDPAddr where
  "example_peer = \<lparr>IP = [198, 51, 100, 5], Port = 55555\<rparr>"

definition early_success :: "punch_event list" where
  "early_success =
     [SenderStep, ReaderStep (Datagram example_peer ''PUNCH:abc:0''), MainSuccess]"

section \<open>The connection manager's session list (package manager)\<close>

text \<open>
  Sessions are shared objects: the manager's list, a launch in flight and a promotion
  watcher hold pointers to them, and \<open>promoteSecondary\<close> changes roles through the
  pointer. The model keeps the session objects in a heap (a pointer is an index, a new
  object is appended) and the manager's list as a list of pointers. Each operation below
  is one critical section under the manager's mutex (or one change made by a session's
  own routines), so a run of the manager is a sequence of operations:
  \<^item> \<open>CheckSessions now ttl_due\<close>: one tick of the monitor at time \<open>now\<close>;
    \<open>ttl_due\<close> says whether the primary's remaining TTL is within the overlap window.
    It drops closed sessions and unhealthy non-draining sessions, then starts a primary
    or a secondary launch if the list and the launch state allow it.
  \<^item> \<open>PrimaryPreCheck\<close>, \<open>PrimaryLaunchFails\<close>, \<open>PrimaryLaunchReturns\<close>: the
    first guard of \<open>launchPrimarySession\<close>, the launcher's failure, and the second
    guard with the append to the list; likewise for the secondary launch, whose guards
    also test the length of the list and whose append starts a promotion watcher.
  \<^item> \<open>PromoteSecondary p\<close>: the watcher of \<open>p\<close> calls \<open>promoteSecondary\<close>;
    \<open>WatcherExits p\<close>: it gives up.
  \<^item> \<open>HealthChanges\<close> and \<open>QuicCloses\<close>: the keepalive loop sets the health flag,
    the connection's context is done.
  \<^item> \<open>ManagerShutdown\<close> clears the list.
  An operation whose routine is not at that point leaves the state unchanged. A launch
  routine updates the launch state when it ends (its explicit call of
  \<open>clearLaunchState\<close> and the deferred one together), so at most one launch of each
  kind is in flight.
\<close>

definition launchSecondarySession_state :: "launch_outcome \<Rightarrow> LaunchState \<Rightarrow> LaunchState" where
  "launchSecondarySession_state outcome ls =
     (case outcome of
        LaunchFailed \<Rightarrow> clearLaunchState False False ls
      | _ \<Rightarrow> clearLaunchState False False (clearLaunchState False True ls))"

datatype launch_phase = NotRunning | Spawned | Launching

record ConnManager =
  cm_heap :: "Session list"
  cm_sessions :: "nat list"
  cm_launchState :: LaunchState
  cm_primaryLaunch :: launch_phase
  cm_secondaryLaunch :: launch_phase
  cm_watchers :: "nat list"

datatype cm_op =
    CheckSessions int bool
  | PrimaryPreCheck
  | PrimaryLaunchFails
  | PrimaryLaunchReturns string
  | SecondaryPreCheck
  | SecondaryLaunchFails
  | SecondaryLaunchReturns string
  | PromoteSecondary nat
  | WatcherExits nat
  | HealthChanges nat bool
  | QuicCloses nat
  | ManagerShutdown

definition deref :: "ConnManager \<Rightarrow> nat \<Rightarrow> Session" where
  "deref cm p = cm_heap cm ! p"

definition with_role :: "Session \<Rightarrow> string \<Rightarrow> Session" where
  "with_role s role = s\<lparr>Role := role\<rparr>"

definition cm_Start :: "string \<Rightarrow> ConnManager" where
  "cm_Start sessionID =
     \<lparr>cm_heap = [with_role (launched sessionID) RolePrimary],
      cm_sessions = [0],
      cm_launchState = \<lparr>launchingPrimary = False, launchingSecondary = False,
        lastLaunchAttempt = 0, failedAttempts = 0\<rparr>,
      cm_primaryLaunch = NotRunning,
      cm_secondaryLaunch = NotRunning,
      cm_watchers = []\<rparr>"

definition checkSessions :: "int \<Rightarrow> bool \<Rightarrow> ConnManager \<Rightarrow> ConnManager" where
  "checkSessions now ttl_due cm =
     (let activeSessions =
            filter (\<lambda>p. \<not> quic_closed (deref cm p)
                         \<and> (IsHealthy (deref cm p) \<or> IsDraining (deref cm p)))
              (cm_sessions cm);
          cm1 = cm\<lparr>cm_sessions := activeSessions\<rparr>
      in if list_ex (\<lambda>p. IsPrimary (deref cm p)) activeSessions then
           (if ttl_due \<and> \<not> list_ex (\<lambda>p. IsSecondary (deref cm p)) activeSessions
               \<and> length activeSessions < 2
            then (case canLaunchSecondary now (cm_launchState cm1) of
                    (True, ls) \<Rightarrow> cm1\<lparr>cm_launchState := ls, cm_secondaryLaunch := Spawned\<rparr>
                  | (False, ls) \<Rightarrow> cm1\<lparr>cm_launchState := ls\<rparr>)
            else cm1)
         else
           (if length activeSessions < 2
            then (case canLaunchPrimary now (cm_launchState cm1) of
                    (True, ls) \<Rightarrow> cm1\<lparr>cm_launchState := ls, cm_primaryLaunch := Spawned\<rparr>
                  | (False, ls) \<Rightarrow> cm1\<lparr>cm_launchState := ls\<rparr>)
            else cm1))"

definition promoteSecondary :: "nat \<Rightarrow> ConnManager \<Rightarrow> ConnManager" where
  "promoteSecondary secondary cm =
     (if \<not> IsHealthy (deref cm secondary) then cm
      else
        (let oldPrimary = find (\<lambda>p. p \<noteq> secondary \<and> IsPrimary (deref cm p)) (cm_sessions cm);
             heap1 = (cm_heap cm)[secondary := with_role (deref cm secondary) RolePrimary]
         in case oldPrimary of
              None \<Rightarrow> cm\<lparr>cm_heap := heap1\<rparr>
            | Some old \<Rightarrow> cm\<lparr>cm_heap := heap1[old := with_role (heap1 ! old) RoleDraining]\<rparr>))"

fun cm_step :: "ConnManager \<Rightarrow> cm_op \<Rightarrow> ConnManager" where
  "cm_step cm (CheckSessions now ttl_due) = checkSessions now ttl_due cm"
| "cm_step cm PrimaryPreCheck =
     (if cm_primaryLaunch cm = Spawned then
        (if list_ex (\<lambda>p. IsPrimary (deref cm p)) (cm_sessions cm)
         then cm\<lparr>cm_launchState := launchPrimarySession_state Redundant (cm_launchState cm),
                 cm_primaryLaunch := NotRunning\<rparr>
         else cm\<lparr>cm_primaryLaunch := Launching\<rparr>)
      else cm)"
| "cm_step cm PrimaryLaunchFails =
     (if cm_primaryLaunch cm = Launching
      then cm\<lparr>cm_launchState := launchPrimarySession_state LaunchFailed (cm_launchState cm),
              cm_primaryLaunch := NotRunning\<rparr>
      else cm)"
| "cm_step cm (PrimaryLaunchReturns sessionID) =
     (if cm_primaryLaunch cm = Launching then
        (if list_ex (\<lambda>p. IsPrimary (deref cm p)) (cm_sessions cm)
         then cm\<lparr>cm_heap := cm_heap cm
                    @ [(with_role (launched sessionID) RolePrimary)\<lparr>quic_closed := True\<rparr>],
                 cm_launchState := launchPrimarySession_state Discarded (cm_launchState cm),
                 cm_primaryLaunch := NotRunning\<rparr>
         else cm\<lparr>cm_heap := cm_heap cm @ [with_role (launched sessionID) RolePrimary],
                 cm_sessions := cm_sessions cm @ [length (cm_heap cm)],
                 cm_launchState := launchPrimarySession_state Launched (cm_launchState cm),
                 cm_primaryLaunch := NotRunning\<rparr>)
      else cm)"
| "cm_step cm SecondaryPreCheck =
     (if cm_secondaryLaunch cm = Spawned then
        (if list_ex (\<lambda>p. IsSecondary (deref cm p)) (cm_sessions cm)
            \<or> length (cm_sessions cm) \<ge> 2
         then cm\<lparr>cm_launchState := launchSecondarySession_state Redundant (cm_launchState cm),
                 cm_secondaryLaunch := NotRunning\<rparr>
         else cm\<lparr>cm_secondaryLaunch := Launching\<rparr>)
      else cm)"
| "cm_step cm SecondaryLaunchFails =
     (if cm_secondaryLaunch cm = Launching
      then cm\<lparr>cm_launchState := launchSecondarySession_state LaunchFailed (cm_launchState cm),
              cm_secondaryLaunch := NotRunning\<rparr>
      else cm)"
| "cm_step cm (SecondaryLaunchReturns sessionID) =
     (if cm_secondaryLaunch cm = Launching then
        (if list_ex (\<lambda>p. IsSecondary (deref cm p)) (cm_sessions cm)
            \<or> length (cm_sessions cm) \<ge> 2
         then cm\<lparr>cm_heap := cm_heap cm @ [with_role (launched sessionID) RoleSecondary],
                 cm_launchState := launchSecondarySession_state Discarded (cm_launchState cm),
                 cm_secondaryLaunch := NotRunning\<rparr>
         else cm\<lparr>cm_heap := cm_heap cm @ [with_role (launched sessionID) RoleSecondary],
                 cm_sessions := cm_sessions cm @ [length (cm_heap cm)],
                 cm_watchers := cm_watchers cm @ [length (cm_heap cm)],
                 cm_launchState := launchSecondarySession_state Launched (cm_launchState cm),
                 cm_secondaryLaunch := NotRunning\<rparr>)
      else cm)"
| "cm_step cm (PromoteSecondary secondary) =
     (if secondary \<in> set (cm_watchers cm)
      then promoteSecondary secondary (cm\<lparr>cm_watchers := remove1 secondary (cm_watchers cm)\<rparr>)
      else cm)"
| "cm_step cm (WatcherExits secondary) =
     cm\<lparr>cm_watchers := remove1 secondary (cm_watchers cm)\<rparr>"
| "cm_step cm (HealthChanges p h) =
     (if p < length (cm_heap cm)
      then cm\<lparr>cm_heap := (cm_heap cm)[p := SetHealthy (deref cm p) h]\<rparr>
      else cm)"
| "cm_step cm (QuicCloses p) =
     (if p < length (cm_heap cm)
      then cm\<lparr>cm_heap := (cm_heap cm)[p := (deref cm p)\<lparr>quic_closed := True\<rparr>]\<rparr>
      else cm)"
| "cm_step cm ManagerShutdown = cm\<lparr>cm_sessions := []\<rparr>"

definition cm_run :: "string \<Rightarrow> cm_op list \<Rightarrow> ConnManager" where
  "cm_run sessionID ops = foldl cm_step (cm_Start sessionID) ops"

definition roles :: "ConnManager \<Rightarrow> string list" where
  "roles cm = map (\<lambda>p. Role (deref cm p)) (cm_sessions cm)"

text \<open>
  A schedule. The monitor starts a secondary launch, which appends session 1 and starts
  its watcher. The watcher's third healthy tick has been taken when the connection of
  session 1 closes and the monitor's tick removes session 1 and starts the next secondary
  launch; the watcher then promotes session 1, which is no longer in the list, and
  demotes the primary, session 0, to draining. The next tick finds no primary and one
  session and starts a primary launch. The secondary launch appends session 2, the
  primary launch appends session 3.
\<close>

definition promotion_race :: "cm_op list" where
  "promotion_race =
     [CheckSessions (100 * Second) True,
      SecondaryPreCheck,
      SecondaryLaunchReturns ''s1'',
      QuicCloses 1,
      CheckSessions (125 * Second) True,
      SecondaryPreCheck,
      PromoteSecondary 1,
      CheckSessions (130 * Second) False,
      PrimaryPreCheck,
      SecondaryLaunchReturns ''s2'',
      PrimaryLaunchReturns ''s3'']"

text \<open>
  What every operation keeps: the list holds distinct pointers to allocated sessions,
  at most one of them to a primary and at most one to a secondary.
\<close>

definition cm_inv :: "ConnManager \<Rightarrow> bool" where
  "cm_inv cm =
     ((\<forall>p \<in> set (cm_sessions cm). p < length (cm_heap cm))
      \<and> distinct (cm_sessions cm)
      \<and> (\<forall>p \<in> set (cm_sessions cm). \<forall>q \<in> set (cm_sessions cm).
            IsPrimary (deref cm p) \<and> IsPrimary (deref cm q) \<longrightarrow> p = q)
      \<and> (\<forall>p \<in> set (cm_sessions cm). \<forall>q \<in> set (cm_sessions cm).
            IsSecondary (deref cm p) \<and> IsSecondary (deref cm q) \<longrightarrow> p = q))"

section \<open>Properties of the codec\<close>

lemma bit_byte_lane64:
  "bit (push_bit k (ucast (ucast (drop_bit k (v :: uint64)) :: byte)) :: uint64) n
     = (k \<le> n \<and> n < k + 8 \<and> bit v n)"
  by (auto simp: bit_simps dest: bit_imp_le_length)

lemma bit_byte_low64:
  "bit (ucast (ucast (v :: uint64) :: byte) :: uint64) n = (n < 8 \<and> bit v n)"
  by (auto simp: bit_simps dest: bit_imp_le_length)

lemma Uint64_PutUint64: "Uint64 (PutUint64 v) = v"
proof (rule bit_word_eqI)
  fix n assume "n < LENGTH(64)"
  then have n: "n < 64" by simp
  have "bit (Uint64 (PutUint64 v)) n = (bit v n \<and> n < 64)"
    unfolding Uint64_def PutUint64_def
    by (simp add: bit_or_iff bit_byte_lane64 bit_byte_low64) arith
  with n show "bit (Uint64 (PutUint64 v)) n = bit v n" by simp
qed

lemma length_PutUint64: "length (PutUint64 v) = 8"
  by (simp add: PutUint64_def)

lemma ReadFull_exact: "ReadFull (length xs) (xs @ rest) = ((xs, None), rest)"
  by (simp add: ReadFull_def)

lemma readUint64_PutUint64: "readUint64 (PutUint64 v @ rest) = ((v, None), rest)"
  using ReadFull_exact [of "PutUint64 v" rest]
  by (simp add: readUint64_def length_PutUint64 Uint64_PutUint64)

lemma readByte_Cons: "readByte (b # rest) = ((b, None), rest)"
  by (simp add: readByte_def ReadFull_def)

lemma ReadControlMessage_Ping:
  "ReadControlMessage (WritePing [] n @ rest) = ((OpPing, n, None), rest)"
  by (simp add: ReadControlMessage_def WritePing_def writeUint64_def writeByte_def
      readByte_Cons readUint64_PutUint64)

lemma ReadControlMessage_Pong:
  "ReadControlMessage (WritePong [] n @ rest) = ((OpPong, n, None), rest)"
  by (simp add: ReadControlMessage_def WritePong_def writeUint64_def writeByte_def
      readByte_Cons readUint64_PutUint64)

lemma ReadControlMessage_Shutdown:
  "ReadControlMessage (WriteShutdown [] @ rest) = ((OpShutdown, 0, None), rest)"
  by (simp add: ReadControlMessage_def WriteShutdown_def writeByte_def readByte_Cons
      OpShutdown_def OpPing_def OpPong_def)

lemma ReadControlMessage_unknown:
  assumes "b \<noteq> 0x01" "b \<noteq> 0x02" "b \<noteq> 0x03"
  shows "ReadControlMessage (b # rest) = ((b, 0, Some (UnknownOpcode b)), rest)"
  using assms
  by (simp add: ReadControlMessage_def readByte_Cons OpShutdown_def OpPing_def OpPong_def)

text \<open>
  C7. The control-frame codec round-trips. \<open>WritePing\<close> writes opcode 0x01 followed by
  the big-endian nonce, \<open>WritePong\<close> opcode 0x02 followed by the nonce, \<open>WriteShutdown\<close>
  the single byte 0x03; reading a control message from what was written (whatever follows
  it on the stream) gives back the opcode and the nonce with no error and leaves the
  following bytes unread. A first byte other than 0x01, 0x02, 0x03 makes the reader
  return the error for an unknown opcode, not a frame.
\<close>

theorem control_frame_roundtrip:
  "WritePing [] n = 0x01 # PutUint64 n
   \<and> WritePong [] n = 0x02 # PutUint64 n
   \<and> WriteShutdown [] = [0x03]
   \<and> ReadControlMessage (WritePing [] n @ rest) = ((0x01, n, None), rest)
   \<and> ReadControlMessage (WritePong [] n @ rest) = ((0x02, n, None), rest)
   \<and> ReadControlMessage (WriteShutdown [] @ rest) = ((0x03, 0, None), rest)
   \<and> (b \<notin> {0x01, 0x02, 0x03} \<longrightarrow>
        ReadControlMessage (b # rest) = ((b, 0, Some (UnknownOpcode b)), rest))"
proof -
  have w: "WritePing [] n = 0x01 # PutUint64 n" "WritePong [] n = 0x02 # PutUint64 n"
    "WriteShutdown [] = [0x03]"
    by (simp_all add: WritePing_def WritePong_def WriteShutdown_def writeUint64_def
        writeByte_def OpPing_def OpPong_def OpShutdown_def)
  have r: "ReadControlMessage (WritePing [] n @ rest) = ((0x01, n, None), rest)"
    "ReadControlMessage (WritePong [] n @ rest) = ((0x02, n, None), rest)"
    "ReadControlMessage (WriteShutdown [] @ rest) = ((0x03, 0, None), rest)"
    using ReadControlMessage_Ping [of n rest] ReadControlMessage_Pong [of n rest]
      ReadControlMessage_Shutdown [of rest]
    by (simp_all add: OpPing_def OpPong_def OpShutdown_def)
  have u: "b \<notin> {0x01, 0x02, 0x03} \<longrightarrow>
      ReadControlMessage (b # rest) = ((b, 0, Some (UnknownOpcode b)), rest)"
    using ReadControlMessage_unknown [of b rest] by simp
  from w r u show ?thesis by simp
qed

theorem control_frame_roundtrip_witness:
  "ReadControlMessage (WritePing [] 0xDEADBEEFCAFEBABE @ [7]) = ((0x01, 0xDEADBEEFCAFEBABE, None), [7])
   \<and> (0xFF :: byte) \<notin> {0x01, 0x02, 0x03}
   \<and> ReadControlMessage [0xFF, 7] = ((0xFF, 0, Some (UnknownOpcode 0xFF)), [7])"
proof -
  have h: "(0xFF :: byte) \<notin> {0x01, 0x02, 0x03}" by simp
  from control_frame_roundtrip [of "0xDEADBEEFCAFEBABE" "[7]" "0xFF"] h
  show ?thesis by blast
qed


section \<open>Properties of the flow-request reader\<close>

lemma Uint32_1024: "Uint32 [0, 0, 4, 0] = 1024"
  by (simp add: Uint32_def)

text \<open>
  C8. Reading a flow-request target fails when the stream ends before the 4 length
  bytes, and fails when the big-endian value of the 4 length bytes is above 1024; a
  length of exactly 1024 (the bytes 00 00 04 00) followed by 1024 bytes is accepted and
  yields those bytes.
\<close>

theorem read_target_length_bounds:
  "(length stream < 4 \<longrightarrow>
      (\<exists>e r. ReadSOCKS5TargetAddress stream = (Inl (FailedReadLength e), r)))
   \<and> (4 \<le> length stream \<and> 1024 < unat (Uint32 (take 4 stream)) \<longrightarrow>
      ReadSOCKS5TargetAddress stream
        = (Inl (TargetTooLong (Uint32 (take 4 stream))), drop 4 stream))
   \<and> (length body = 1024 \<longrightarrow>
      ReadSOCKS5TargetAddress ([0, 0, 4, 0] @ body @ rest) = (Inr body, rest))"
proof (intro conjI impI)
  assume "length stream < 4"
  then show "\<exists>e r. ReadSOCKS5TargetAddress stream = (Inl (FailedReadLength e), r)"
    by (simp add: ReadSOCKS5TargetAddress_def ReadFull_def)
next
  assume "4 \<le> length stream \<and> 1024 < unat (Uint32 (take 4 stream))"
  then show "ReadSOCKS5TargetAddress stream
      = (Inl (TargetTooLong (Uint32 (take 4 stream))), drop 4 stream)"
    by (simp add: ReadSOCKS5TargetAddress_def ReadFull_def MaxTargetAddressLength_def Let_def)
next
  assume len: "length body = 1024"
  then have ne: "body \<noteq> []" by auto
  have hd: "ReadFull 4 ([0, 0, 4, 0] @ body @ rest) = (([0, 0, 4, 0], None), body @ rest)"
    by (simp add: ReadFull_def)
  have bd: "ReadFull 1024 (body @ rest) = ((body, None), rest)"
    using ReadFull_exact [of body rest] len by simp
  show "ReadSOCKS5TargetAddress ([0, 0, 4, 0] @ body @ rest) = (Inr body, rest)"
    unfolding ReadSOCKS5TargetAddress_def hd
    by (simp add: Uint32_1024 MaxTargetAddressLength_def bd ne)
qed

theorem read_target_length_bounds_witness:
  "(\<exists>e r. ReadSOCKS5TargetAddress [0, 0, 4] = (Inl (FailedReadLength e), r))
   \<and> ReadSOCKS5TargetAddress [0, 0, 4, 1, 65] = (Inl (TargetTooLong 1025), [65])
   \<and> ReadSOCKS5TargetAddress ([0, 0, 4, 0] @ replicate 1024 65 @ [66])
        = (Inr (replicate 1024 65), [66])"
proof -
  have a: "length [0 :: byte, 0, 4] < 4" by simp
  have v: "Uint32 [0, 0, 4, 1] = 1025" by (simp add: Uint32_def)
  have b: "4 \<le> length [0 :: byte, 0, 4, 1, 65]
      \<and> 1024 < unat (Uint32 (take 4 [0, 0, 4, 1, 65]))"
    by (simp add: v)
  have c: "length (replicate 1024 (65 :: byte)) = 1024" by simp
  from read_target_length_bounds [of "[0, 0, 4]" "[]" "[]"] a
  have 1: "\<exists>e r. ReadSOCKS5TargetAddress [0, 0, 4] = (Inl (FailedReadLength e), r)"
    by blast
  from read_target_length_bounds [of "[0, 0, 4, 1, 65]" "[]" "[]"] b
  have 2: "ReadSOCKS5TargetAddress [0, 0, 4, 1, 65] = (Inl (TargetTooLong 1025), [65])"
    by (simp add: v)
  from read_target_length_bounds [of "[]" "replicate 1024 65" "[66]"] c
  have 3: "ReadSOCKS5TargetAddress ([0, 0, 4, 0] @ replicate 1024 65 @ [66])
      = (Inr (replicate 1024 65), [66])"
    by blast
  from 1 2 3 show ?thesis by blast
qed

section \<open>Properties of the session-id generator\<close>

lemma length_hex_EncodeToString: "length (hex_EncodeToString bs) = 2 * length bs"
  by (induction bs) (simp_all add: hex_EncodeToString_def)

lemma high_nibble_less: "unat (drop_bit 4 (v :: byte)) < 16"
proof -
  have "unat (drop_bit 4 v) = drop_bit 4 (unat v)"
    by (simp only: unat_drop_bit_eq)
  then have "unat (drop_bit 4 v) = unat v div 16"
    by (simp only: drop_bit_eq_div) simp
  moreover have "unat v < 2 ^ LENGTH(8)" by (rule unsigned_less)
  ultimately show ?thesis by simp
qed

lemma low_nibble_less: "unat ((v :: byte) AND 0x0f) < 16"
proof -
  have "unat (v AND 15) \<le> unat (15 :: byte)"
    by (rule word_and_le1 [THEN word_le_nat_alt [THEN iffD1]])
  then show ?thesis by simp
qed

lemma length_hextable: "length hextable = 16"
  by (simp add: hextable_def)

lemma set_hex_EncodeToString:
  assumes "c \<in> set (hex_EncodeToString bs)"
  shows "c \<in> set hextable"
proof -
  have nibble: "hextable ! i \<in> set hextable" if "i < 16" for i
    using that by (simp add: length_hextable)
  from assms show ?thesis
    by (auto simp: hex_EncodeToString_def intro!: nibble high_nibble_less low_nibble_less)
qed

lemma Sprintf_d_example: "Sprintf_d 1700000000000000000 = ''1700000000000000000''"
  by (simp add: Sprintf_d_def decimal.simps digits_def)

text \<open>
  C9, as the specification states it, fails when the random source fails: the generator
  then returns the hexadecimal encoding of the decimal timestamp, here 38 characters.
\<close>

theorem session_id_fallback_counterexample:
  "length (GenerateSessionID None 1700000000000000000) \<noteq> 16"
proof -
  have "GenerateSessionID None 1700000000000000000
      = ''31373030303030303030303030303030303030''"
    by (simp add: GenerateSessionID_def GenerateTimestampID_def Sprintf_d_example
        bytes_of_string_def hex_EncodeToString_def hextable_def)
  then show ?thesis by simp
qed

text \<open>
  C9, amended. Whenever the cryptographic random source fills the 8-byte buffer, the
  generator returns the hexadecimal encoding of those bytes, whatever the clock says:
  exactly 16 characters, each one of \<open>0123456789abcdef\<close>. When the random source
  fails, the generator returns the timestamp identifier instead.
\<close>

theorem session_id_from_random_source:
  "(length bytes = 8 \<longrightarrow>
      GenerateSessionID (Some bytes) now = hex_EncodeToString bytes
      \<and> length (GenerateSessionID (Some bytes) now) = 16
      \<and> (\<forall>c \<in> set (GenerateSessionID (Some bytes) now). c \<in> set ''0123456789abcdef''))
   \<and> GenerateSessionID None now = GenerateTimestampID now"
  using set_hex_EncodeToString [of _ bytes]
  by (auto simp: GenerateSessionID_def length_hex_EncodeToString hextable_def)

theorem session_id_from_random_source_witness:
  "GenerateSessionID (Some [1, 2, 3, 4, 5, 6, 7, 255]) 1700000000000000000 = ''01020304050607ff''
   \<and> length (GenerateSessionID (Some [1, 2, 3, 4, 5, 6, 7, 255]) 1700000000000000000) = 16"
proof -
  have l: "length [1 :: byte, 2, 3, 4, 5, 6, 7, 255] = 8" by simp
  have h: "hex_EncodeToString [1, 2, 3, 4, 5, 6, 7, 255] = ''01020304050607ff''"
    by (simp add: hex_EncodeToString_def hextable_def)
  from session_id_from_random_source [of "[1, 2, 3, 4, 5, 6, 7, 255]" 1700000000000000000] l h
  show ?thesis by simp
qed

section \<open>The SOCKS5 request parse can panic\<close>

lemmas parse_defs =
  handle_request_def conn_Read_def OptimizedBufferSize_def go_index_def parse_request_def
  SOCKS5Version_def SOCKS5Connect_def SOCKS5IPv4_def SOCKS5DomainName_def go_slice_def
  go_Uint16_def Uint16_def Sprintf_target_def Sprintf_ipv4_def string_of_bytes_def
  Sprintf_d_def decimal.simps digits_def char_of_def nth_append

lemma handle_request_ipv4_example:
  "handle_request [5, 1, 0] [5, 1, 0, 1, 10, 0, 0, 1, 1, 187] = Some (Target ''10.0.0.1:443'')"
  by (simp add: parse_defs)

lemma handle_request_domain_example:
  "handle_request [5, 1, 0] [5, 1, 0, 3, 3, 0x61, 0x2e, 0x62, 0, 80] = Some (Target ''a.b:80'')"
  by (simp add: parse_defs)

text \<open>
  C10 says that the parse never panics on an out-of-range access. On a CONNECT request
  for a domain name of 251 bytes (address type 0x03, length byte 0xFB, the name, the
  port) the expression \<open>5+domainLen\<close> wraps to 0 and the slice \<open>buf[5:0]\<close> panics.
\<close>

theorem socks5_parse_panics_on_long_domain:
  "handle_request [5, 1, 0] ([5, 1, 0, 3, 0xFB] @ replicate 251 0x61 @ [0, 80]) = None"
  by (simp add: parse_defs)


section \<open>Properties of the dispatch policy\<close>

lemma find_SomeD: "find P xs = Some x \<Longrightarrow> x \<in> set xs \<and> P x"
  by (auto simp: find_Some_iff)

lemma find_Some_ex: "\<exists>x \<in> set xs. P x \<Longrightarrow> \<exists>y. find P xs = Some y"
  by (cases "find P xs") (auto simp: find_None_iff)

lemma primary_not_draining: "IsPrimary s \<Longrightarrow> \<not> IsDraining s"
  by (simp add: IsPrimary_def IsDraining_def RolePrimary_def RoleDraining_def)

lemma secondary_not_draining: "IsSecondary s \<Longrightarrow> \<not> IsDraining s"
  by (simp add: IsSecondary_def IsDraining_def RoleSecondary_def RoleDraining_def)

text \<open>
  C2. For every session list, \<open>GetCurrent\<close> returns a healthy primary of the list if
  there is one; otherwise a healthy secondary if there is one; otherwise a healthy session
  that is not draining if there is one. Whatever it returns is a session of the list that
  is healthy and not draining, and it returns nothing when no session is healthy and not
  draining.
\<close>

theorem GetCurrent_policy:
  "((\<exists>s \<in> set sessions. IsPrimary s \<and> IsHealthy s) \<longrightarrow>
      (\<exists>c. GetCurrent sessions = Some c \<and> c \<in> set sessions \<and> IsPrimary c \<and> IsHealthy c))
   \<and> (\<not> (\<exists>s \<in> set sessions. IsPrimary s \<and> IsHealthy s)
        \<and> (\<exists>s \<in> set sessions. IsSecondary s \<and> IsHealthy s) \<longrightarrow>
      (\<exists>c. GetCurrent sessions = Some c \<and> c \<in> set sessions \<and> IsSecondary c \<and> IsHealthy c))
   \<and> (\<not> (\<exists>s \<in> set sessions. IsPrimary s \<and> IsHealthy s)
        \<and> \<not> (\<exists>s \<in> set sessions. IsSecondary s \<and> IsHealthy s)
        \<and> (\<exists>s \<in> set sessions. IsHealthy s \<and> \<not> IsDraining s) \<longrightarrow>
      (\<exists>c. GetCurrent sessions = Some c \<and> c \<in> set sessions \<and> IsHealthy c \<and> \<not> IsDraining c))
   \<and> (\<forall>c. GetCurrent sessions = Some c \<longrightarrow>
         c \<in> set sessions \<and> IsHealthy c \<and> \<not> IsDraining c)
   \<and> (\<not> (\<exists>s \<in> set sessions. IsHealthy s \<and> \<not> IsDraining s) \<longrightarrow> GetCurrent sessions = None)"
proof -
  have p1: "\<exists>c. GetCurrent sessions = Some c \<and> c \<in> set sessions \<and> IsPrimary c \<and> IsHealthy c"
    if "\<exists>s \<in> set sessions. IsPrimary s \<and> IsHealthy s"
  proof -
    from find_Some_ex [OF that] obtain c where
    c: "find (\<lambda>s. IsPrimary s \<and> IsHealthy s) sessions = Some c" by blast
    with find_SomeD [OF c] show ?thesis
      by (simp add: GetCurrent_def)
  qed
  have p2: "\<exists>c. GetCurrent sessions = Some c \<and> c \<in> set sessions \<and> IsSecondary c \<and> IsHealthy c"
    if a: "\<not> (\<exists>s \<in> set sessions. IsPrimary s \<and> IsHealthy s)
      \<and> (\<exists>s \<in> set sessions. IsSecondary s \<and> IsHealthy s)"
  proof -
  from a have n: "find (\<lambda>s. IsPrimary s \<and> IsHealthy s) sessions = None"
    by (simp add: find_None_iff)
  from a find_Some_ex [of sessions "\<lambda>s. IsSecondary s \<and> IsHealthy s"] obtain c where
    c: "find (\<lambda>s. IsSecondary s \<and> IsHealthy s) sessions = Some c" by blast
  with n find_SomeD [OF c] show ?thesis
    by (simp add: GetCurrent_def)
  qed
  have p3: "\<exists>c. GetCurrent sessions = Some c \<and> c \<in> set sessions \<and> IsHealthy c \<and> \<not> IsDraining c"
    if a: "\<not> (\<exists>s \<in> set sessions. IsPrimary s \<and> IsHealthy s)
      \<and> \<not> (\<exists>s \<in> set sessions. IsSecondary s \<and> IsHealthy s)
      \<and> (\<exists>s \<in> set sessions. IsHealthy s \<and> \<not> IsDraining s)"
  proof -
  from a have n: "find (\<lambda>s. IsPrimary s \<and> IsHealthy s) sessions = None"
    "find (\<lambda>s. IsSecondary s \<and> IsHealthy s) sessions = None"
    by (simp_all add: find_None_iff)
  from a find_Some_ex [of sessions "\<lambda>s. IsHealthy s \<and> \<not> IsDraining s"] obtain c where
    c: "find (\<lambda>s. IsHealthy s \<and> \<not> IsDraining s) sessions = Some c" by blast
  with n find_SomeD [OF c] show ?thesis
    by (simp add: GetCurrent_def)
  qed
  have p4: "c \<in> set sessions \<and> IsHealthy c \<and> \<not> IsDraining c"
    if "GetCurrent sessions = Some c" for c
    using that by (auto simp: GetCurrent_def split: option.splits
        dest!: find_SomeD dest: primary_not_draining secondary_not_draining)
  have p5: "GetCurrent sessions = None"
    if "\<not> (\<exists>s \<in> set sessions. IsHealthy s \<and> \<not> IsDraining s)"
    using that by (auto simp: GetCurrent_def find_None_iff split: option.splits
        dest!: find_SomeD dest: primary_not_draining secondary_not_draining)
  from p1 p2 p3 p4 p5 show ?thesis by blast
qed

lemmas session_defs =
  session_with_def IsPrimary_def IsSecondary_def IsDraining_def IsHealthy_def
  RolePrimary_def RoleSecondary_def RoleDraining_def

theorem GetCurrent_policy_witness:
  "GetCurrent [session_with ''a'' ''draining'' True, session_with ''b'' ''secondary'' True,
               session_with ''c'' ''primary'' False, session_with ''d'' ''primary'' True]
     = Some (session_with ''d'' ''primary'' True)
   \<and> GetCurrent [session_with ''a'' ''draining'' True, session_with ''c'' ''primary'' False,
                 session_with ''b'' ''secondary'' True]
     = Some (session_with ''b'' ''secondary'' True)
   \<and> GetCurrent [session_with ''a'' ''draining'' True, session_with ''c'' ''primary'' False,
                 session_with ''e'' [] True]
     = Some (session_with ''e'' [] True)
   \<and> GetCurrent [session_with ''a'' ''draining'' True, session_with ''c'' ''primary'' False]
     = None"
proof -
  let ?a = "session_with ''a'' ''draining'' True"
  let ?b = "session_with ''b'' ''secondary'' True"
  let ?c = "session_with ''c'' ''primary'' False"
  let ?d = "session_with ''d'' ''primary'' True"
  let ?e = "session_with ''e'' [] True"
  have h1: "\<exists>s \<in> set [?a, ?b, ?c, ?d]. IsPrimary s \<and> IsHealthy s"
    by (simp add: session_defs)
  from GetCurrent_policy [of "[?a, ?b, ?c, ?d]"] h1
  obtain c1 where c1: "GetCurrent [?a, ?b, ?c, ?d] = Some c1" "c1 \<in> set [?a, ?b, ?c, ?d]"
    "IsPrimary c1" "IsHealthy c1"
    by blast
  then have r1: "GetCurrent [?a, ?b, ?c, ?d] = Some ?d"
    by (auto simp: session_defs)
  have h2: "\<not> (\<exists>s \<in> set [?a, ?c, ?b]. IsPrimary s \<and> IsHealthy s)
      \<and> (\<exists>s \<in> set [?a, ?c, ?b]. IsSecondary s \<and> IsHealthy s)"
    by (simp add: session_defs)
  from GetCurrent_policy [of "[?a, ?c, ?b]"] h2
  obtain c2 where c2: "GetCurrent [?a, ?c, ?b] = Some c2" "c2 \<in> set [?a, ?c, ?b]"
    "IsSecondary c2" "IsHealthy c2"
    by blast
  then have r2: "GetCurrent [?a, ?c, ?b] = Some ?b"
    by (auto simp: session_defs)
  have h3: "\<not> (\<exists>s \<in> set [?a, ?c, ?e]. IsPrimary s \<and> IsHealthy s)
      \<and> \<not> (\<exists>s \<in> set [?a, ?c, ?e]. IsSecondary s \<and> IsHealthy s)
      \<and> (\<exists>s \<in> set [?a, ?c, ?e]. IsHealthy s \<and> \<not> IsDraining s)"
    by (simp add: session_defs)
  from GetCurrent_policy [of "[?a, ?c, ?e]"] h3
  obtain c3 where c3: "GetCurrent [?a, ?c, ?e] = Some c3" "c3 \<in> set [?a, ?c, ?e]"
    "IsHealthy c3" "\<not> IsDraining c3"
    by blast
  then have r3: "GetCurrent [?a, ?c, ?e] = Some ?e"
    by (auto simp: session_defs)
  have h4: "\<not> (\<exists>s \<in> set [?a, ?c]. IsHealthy s \<and> \<not> IsDraining s)"
    by (simp add: session_defs)
  from GetCurrent_policy [of "[?a, ?c]"] h4
  have r4: "GetCurrent [?a, ?c] = None"
    by blast
  from r1 r2 r3 r4 show ?thesis by simp
qed

section \<open>Properties of the keepalive loop\<close>

lemma health_step_miss:
  assumes "running st" "read_failed t"
    and "- (2 ^ 63) \<le> missedPings (sess st)" "missedPings (sess st) < 2 ^ 63 - 1"
  shows "missedPings (sess (health_step st (Tick t))) = missedPings (sess st) + 1"
    and "running (health_step st (Tick t)) \<longleftrightarrow> missedPings (sess st) + 1 < 3"
    and "healthy (sess (health_step st (Tick t))) \<longleftrightarrow> healthy (sess st) \<and> missedPings (sess st) + 1 < 3"
    and "nonce (health_step st (Tick t)) = nonce st + 1"
proof -
  from assms(3,4) have w: "wrap64 (missedPings (sess st) + 1) = missedPings (sess st) + 1"
    by (simp add: wrap64_def)
  from assms(1,2) w
  show "missedPings (sess (health_step st (Tick t))) = missedPings (sess st) + 1"
    and "running (health_step st (Tick t)) \<longleftrightarrow> missedPings (sess st) + 1 < 3"
    and "healthy (sess (health_step st (Tick t))) \<longleftrightarrow> healthy (sess st) \<and> missedPings (sess st) + 1 < 3"
    and "nonce (health_step st (Tick t)) = nonce st + 1"
    by (auto simp: health_step_def health_tick_def read_failed_def Let_def IncrementMissedPings_def
        SetHealthy_def split: prod.splits option.splits)
qed

lemma health_step_pong:
  assumes "running st" "pong_matches t st"
  shows "missedPings (sess (health_step st (Tick t))) = 0"
    and "running (health_step st (Tick t))"
    and "healthy (sess (health_step st (Tick t)))"
    and "nonce (health_step st (Tick t)) = nonce st + 1"
  using assms
  by (auto simp: health_step_def health_tick_def pong_matches_def Let_def ResetMissedPings_def
      SetHealthy_def split: prod.splits option.splits)

lemma startHealthCheck_snoc:
  "startHealthCheck s (evs @ [ev]) = health_step (startHealthCheck s evs) ev"
  by (simp add: startHealthCheck_def)

lemma startHealthCheck_Nil:
  "startHealthCheck s [] = \<lparr>sess = s, nonce = 0, running = True\<rparr>"
  by (simp add: startHealthCheck_def)

lemma counter_decides_step:
  assumes "counter_decides st" "read_failed t \<or> pong_matches t st"
  shows "counter_decides (health_step st (Tick t))"
proof (cases "running st")
  case False
  then have "health_step st (Tick t) = st" by (simp add: health_step_def)
  with assms show ?thesis by simp
next
  case True
  from assms(2) show ?thesis
  proof
    assume "read_failed t"
    moreover from assms(1) have "- (2 ^ 63) \<le> missedPings (sess st)"
      "missedPings (sess st) < 2 ^ 63 - 1"
      by (simp_all add: counter_decides_def)
    ultimately show ?thesis using health_step_miss [of st t] assms(1) True
      by (auto simp: counter_decides_def)
  next
    assume "pong_matches t st"
    from health_step_pong [OF True this] assms(1) True show ?thesis
      by (auto simp: counter_decides_def)
  qed
qed

lemma counter_decides_foldl:
  "counter_decides st \<Longrightarrow> probes_only st evs \<Longrightarrow> counter_decides (foldl health_step st evs)"
proof (induction evs arbitrary: st)
  case Nil
  then show ?case by simp
next
  case (Cons ev evs)
  from Cons.prems(2) obtain t where t: "ev = Tick t" "read_failed t \<or> pong_matches t st"
    and rest: "probes_only (health_step st ev) evs"
    by (cases ev) auto
  from counter_decides_step [OF Cons.prems(1) t(2)] t(1)
  have "counter_decides (health_step st ev)" by simp
  from Cons.IH [OF this rest] show ?case by simp
qed

lemma counter_decides_launched: "counter_decides (startHealthCheck (launched sid) [])"
  by (simp add: counter_decides_def startHealthCheck_Nil launched_def SetHealthy_def)

lemma keepalive_counter_decides:
  assumes "probes_only (startHealthCheck (launched sid) []) evs"
  shows "(\<not> healthy (sess (startHealthCheck (launched sid) evs))
           \<longleftrightarrow> missedPings (sess (startHealthCheck (launched sid) evs)) = 3)
       \<and> (\<not> running (startHealthCheck (launched sid) evs)
           \<longleftrightarrow> missedPings (sess (startHealthCheck (launched sid) evs)) = 3)"
proof -
  have "counter_decides (foldl health_step (startHealthCheck (launched sid) []) evs)"
    using counter_decides_foldl [OF counter_decides_launched assms] .
  then have "counter_decides (startHealthCheck (launched sid) evs)"
    by (simp add: startHealthCheck_def)
  then show ?thesis by (auto simp: counter_decides_def)
qed


text \<open>
  C3. In a tick of the keepalive loop in which the read of the reply fails (a read error
  or a read timeout), the missed-ping counter (below the largest \<open>int\<close>) goes up by one, and the session is marked
  unhealthy and the loop exits if and only if the counter thereby reaches 3. A pong with
  the nonce just sent resets the counter to 0 and marks the session healthy, and the loop
  goes on. From launch, after two failed reads the session is still healthy with the
  loop running, and the third failed read in a row marks it unhealthy and ends the loop.
  Along every run from launch that consists of failed reads and matching pongs, the
  session is unhealthy exactly when the counter stands at 3, and exactly then the loop
  has exited.
\<close>

theorem keepalive_three_misses:
  "(running st \<and> read_failed t
      \<and> - (2 ^ 63) \<le> missedPings (sess st) \<and> missedPings (sess st) < 2 ^ 63 - 1 \<longrightarrow>
      missedPings (sess (health_step st (Tick t))) = missedPings (sess st) + 1
      \<and> (running (health_step st (Tick t)) \<longleftrightarrow> missedPings (sess st) + 1 < 3)
      \<and> (healthy (sess (health_step st (Tick t)))
           \<longleftrightarrow> healthy (sess st) \<and> missedPings (sess st) + 1 < 3))
   \<and> (running st \<and> pong_matches p st \<longrightarrow>
      missedPings (sess (health_step st (Tick p))) = 0
      \<and> healthy (sess (health_step st (Tick p)))
      \<and> running (health_step st (Tick p)))
   \<and> (read_failed t1 \<and> read_failed t2 \<and> read_failed t3 \<longrightarrow>
      healthy (sess (startHealthCheck (launched sid) [Tick t1, Tick t2]))
      \<and> running (startHealthCheck (launched sid) [Tick t1, Tick t2])
      \<and> missedPings (sess (startHealthCheck (launched sid) [Tick t1, Tick t2])) = 2
      \<and> \<not> healthy (sess (startHealthCheck (launched sid) [Tick t1, Tick t2, Tick t3]))
      \<and> \<not> running (startHealthCheck (launched sid) [Tick t1, Tick t2, Tick t3])
      \<and> missedPings (sess (startHealthCheck (launched sid) [Tick t1, Tick t2, Tick t3])) = 3)
   \<and> (probes_only (startHealthCheck (launched sid) []) evs \<longrightarrow>
      (\<not> healthy (sess (startHealthCheck (launched sid) evs))
         \<longleftrightarrow> missedPings (sess (startHealthCheck (launched sid) evs)) = 3)
      \<and> (\<not> running (startHealthCheck (launched sid) evs)
         \<longleftrightarrow> missedPings (sess (startHealthCheck (launched sid) evs)) = 3))"
proof -
  have three: "healthy (sess (startHealthCheck (launched sid) [Tick t1, Tick t2]))
      \<and> running (startHealthCheck (launched sid) [Tick t1, Tick t2])
      \<and> missedPings (sess (startHealthCheck (launched sid) [Tick t1, Tick t2])) = 2
      \<and> \<not> healthy (sess (startHealthCheck (launched sid) [Tick t1, Tick t2, Tick t3]))
      \<and> \<not> running (startHealthCheck (launched sid) [Tick t1, Tick t2, Tick t3])
      \<and> missedPings (sess (startHealthCheck (launched sid) [Tick t1, Tick t2, Tick t3])) = 3"
    if f: "read_failed t1 \<and> read_failed t2 \<and> read_failed t3"
  proof -
    let ?s0 = "startHealthCheck (launched sid) []"
    let ?s1 = "health_step ?s0 (Tick t1)"
    let ?s2 = "health_step ?s1 (Tick t2)"
    let ?s3 = "health_step ?s2 (Tick t3)"
    have s0: "running ?s0" "healthy (sess ?s0)" "missedPings (sess ?s0) = 0"
      by (simp_all add: startHealthCheck_Nil launched_def SetHealthy_def)
    from f have s1: "running ?s1" "healthy (sess ?s1)" "missedPings (sess ?s1) = 1"
      using health_step_miss [of ?s0 t1] s0 by simp_all
    from f have s2: "running ?s2" "healthy (sess ?s2)" "missedPings (sess ?s2) = 2"
      using health_step_miss [of ?s1 t2] s1 by simp_all
    from f have s3: "\<not> running ?s3" "\<not> healthy (sess ?s3)" "missedPings (sess ?s3) = 3"
      using health_step_miss [of ?s2 t3] s2 by simp_all
    have e2: "startHealthCheck (launched sid) [Tick t1, Tick t2] = ?s2"
      by (simp add: startHealthCheck_def)
    have e3: "startHealthCheck (launched sid) [Tick t1, Tick t2, Tick t3] = ?s3"
      by (simp add: startHealthCheck_def)
    from s2 s3 show ?thesis unfolding e2 e3 by simp
  qed
  from health_step_miss [of st t] health_step_pong [of st p] three
    keepalive_counter_decides [of sid evs]
  show ?thesis by blast
qed

lemmas keepalive_defs =
  startHealthCheck_def health_step_def health_tick_def launched_def SetHealthy_def
  IncrementMissedPings_def ResetMissedPings_def timeout_tick_def pong_tick_def
  read_failed_def pong_matches_def OpPong_def OpShutdown_def Let_def wrap64_def

theorem keepalive_three_misses_witness:
  "healthy (sess (startHealthCheck (launched ''s'') [Tick timeout_tick, Tick timeout_tick]))
   \<and> \<not> healthy (sess (startHealthCheck (launched ''s'')
          [Tick timeout_tick, Tick timeout_tick, Tick timeout_tick]))
   \<and> missedPings (sess (health_step
          (startHealthCheck (launched ''s'') [Tick timeout_tick, Tick timeout_tick])
          (Tick (pong_tick 3)))) = 0
   \<and> missedPings (sess (startHealthCheck (launched ''s'')
          [Tick timeout_tick, Tick (pong_tick 2), Tick timeout_tick, Tick timeout_tick,
           Tick timeout_tick])) = 3
   \<and> \<not> running (startHealthCheck (launched ''s'')
          [Tick timeout_tick, Tick (pong_tick 2), Tick timeout_tick, Tick timeout_tick,
           Tick timeout_tick])"
proof -
  let ?st = "startHealthCheck (launched ''s'') [Tick timeout_tick, Tick timeout_tick]"
  let ?evs = "[Tick timeout_tick, Tick (pong_tick 2), Tick timeout_tick, Tick timeout_tick,
    Tick timeout_tick]"
  have f: "read_failed timeout_tick"
    by (simp add: read_failed_def timeout_tick_def)
  have r: "running ?st"
    by (simp add: keepalive_defs)
  have m: "pong_matches (pong_tick 3) ?st"
    by (simp add: keepalive_defs)
  have po: "probes_only (startHealthCheck (launched ''s'') []) ?evs"
    by (simp add: keepalive_defs)
  have c: "missedPings (sess (startHealthCheck (launched ''s'') ?evs)) = 3"
    by (simp add: keepalive_defs)
  have bd: "- (2 ^ 63) \<le> missedPings (sess ?st)" "missedPings (sess ?st) < 2 ^ 63 - 1"
    by (simp_all add: keepalive_defs wrap64_def)
  note inst = keepalive_three_misses [of ?st timeout_tick "pong_tick 3" timeout_tick
      timeout_tick timeout_tick "''s''" ?evs]
  from inst f r m po c bd show ?thesis by blast
qed

section \<open>Properties of launch gating\<close>

lemma wrap64_id: "- (2 ^ 63) \<le> x \<Longrightarrow> x < 2 ^ 63 \<Longrightarrow> wrap64 x = x"
  by (simp add: wrap64_def)

lemma cooldown_primary:
  assumes "0 \<le> f" "f \<le> 922337203"
  shows "wrap64 (wrap64 (f * 10) * Second) = f * (10 * Second)"
proof -
  from assms have a: "wrap64 (f * 10) = f * 10" by (intro wrap64_id) simp_all
  from assms have "wrap64 (f * 10 * Second) = f * 10 * Second"
    by (intro wrap64_id) (simp_all add: Second_def)
  with a show ?thesis by simp
qed

lemma cooldown_secondary:
  assumes "0 \<le> f" "f \<le> 922337203"
  shows "wrap64 (wrap64 (f * 5) * Second) = f * (5 * Second)"
proof -
  from assms have a: "wrap64 (f * 5) = f * 5" by (intro wrap64_id) simp_all
  from assms have "wrap64 (f * 5 * Second) = f * 5 * Second"
    by (intro wrap64_id) (simp_all add: Second_def)
  with a show ?thesis by simp
qed

text \<open>
  C4, as the specification states it, fails: with three failed attempts the claimed
  cooldown is 3 times the base of 5 s, yet 20 s after the last attempt
  \<open>canLaunchPrimary\<close> still refuses (its cooldown is 30 s).
\<close>

theorem launch_cooldown_counterexample:
  "3 * (5 * Second)
     \<le> time_Since (20 * Second)
          (lastLaunchAttempt \<lparr>launchingPrimary = False, launchingSecondary = False,
             lastLaunchAttempt = 0, failedAttempts = 3\<rparr>)
   \<and> \<not> fst (canLaunchPrimary (20 * Second)
        \<lparr>launchingPrimary = False, launchingSecondary = False,
          lastLaunchAttempt = 0, failedAttempts = 3\<rparr>)"
  by (simp add: canLaunchPrimary_def time_Since_def wrap64_def Second_def maxDuration_def
      minDuration_def)

text \<open>
  C4, amended. A launch is refused while one of its kind is in flight. Otherwise, with at
  most 2 failed attempts a primary launch is refused until 5 s (a secondary launch until
  2 s) have passed since the last launch attempt; with more than 2 failed attempts the
  cooldown is the number of failed attempts times 10 s for a primary launch and times 5 s
  for a secondary launch. A granted launch sets its in-flight flag and the time of the
  last attempt; a refused one changes nothing. \<open>clearLaunchState\<close> called with
  success sets the count of failed attempts to 0, and called with failure adds one to it.
  (The count is taken below 922337204, where the duration arithmetic does not overflow.)
\<close>

theorem launch_gating:
  "(0 \<le> failedAttempts ls \<and> failedAttempts ls \<le> 922337203 \<longrightarrow>
      (fst (canLaunchPrimary now ls) \<longleftrightarrow>
         \<not> launchingPrimary ls
         \<and> (if failedAttempts ls > 2 then failedAttempts ls * (10 * Second) else 5 * Second)
             \<le> time_Since now (lastLaunchAttempt ls))
      \<and> (fst (canLaunchSecondary now ls) \<longleftrightarrow>
         \<not> launchingSecondary ls
         \<and> (if failedAttempts ls > 2 then failedAttempts ls * (5 * Second) else 2 * Second)
             \<le> time_Since now (lastLaunchAttempt ls))
      \<and> failedAttempts (clearLaunchState isPrimary False ls) = failedAttempts ls + 1)
   \<and> snd (canLaunchPrimary now ls) =
        (if fst (canLaunchPrimary now ls)
         then ls\<lparr>launchingPrimary := True, lastLaunchAttempt := now\<rparr> else ls)
   \<and> snd (canLaunchSecondary now ls) =
        (if fst (canLaunchSecondary now ls)
         then ls\<lparr>launchingSecondary := True, lastLaunchAttempt := now\<rparr> else ls)
   \<and> failedAttempts (clearLaunchState isPrimary True ls) = 0"
proof -
  have gate: "(fst (canLaunchPrimary now ls) \<longleftrightarrow>
         \<not> launchingPrimary ls
         \<and> (if failedAttempts ls > 2 then failedAttempts ls * (10 * Second) else 5 * Second)
             \<le> time_Since now (lastLaunchAttempt ls))
      \<and> (fst (canLaunchSecondary now ls) \<longleftrightarrow>
         \<not> launchingSecondary ls
         \<and> (if failedAttempts ls > 2 then failedAttempts ls * (5 * Second) else 2 * Second)
             \<le> time_Since now (lastLaunchAttempt ls))
      \<and> failedAttempts (clearLaunchState isPrimary False ls) = failedAttempts ls + 1"
    if b: "0 \<le> failedAttempts ls \<and> failedAttempts ls \<le> 922337203"
  proof -
    from b have w: "wrap64 (failedAttempts ls + 1) = failedAttempts ls + 1"
      by (intro wrap64_id) simp_all
    from b show ?thesis
      by (simp add: canLaunchPrimary_def canLaunchSecondary_def Let_def cooldown_primary
          cooldown_secondary clearLaunchState_def w not_less)
  qed
  have upd: "snd (canLaunchPrimary now ls) =
        (if fst (canLaunchPrimary now ls)
         then ls\<lparr>launchingPrimary := True, lastLaunchAttempt := now\<rparr> else ls)"
    "snd (canLaunchSecondary now ls) =
        (if fst (canLaunchSecondary now ls)
         then ls\<lparr>launchingSecondary := True, lastLaunchAttempt := now\<rparr> else ls)"
    by (simp_all add: canLaunchPrimary_def canLaunchSecondary_def Let_def)
  have clr: "failedAttempts (clearLaunchState isPrimary True ls) = 0"
    by (simp add: clearLaunchState_def)
  from gate upd clr show ?thesis by blast
qed


theorem launch_gating_witness:
  "fst (canLaunchPrimary (30 * Second)
      \<lparr>launchingPrimary = False, launchingSecondary = False, lastLaunchAttempt = 0,
        failedAttempts = 3\<rparr>)
   \<and> \<not> fst (canLaunchPrimary (30 * Second - 1)
      \<lparr>launchingPrimary = False, launchingSecondary = False, lastLaunchAttempt = 0,
        failedAttempts = 3\<rparr>)
   \<and> fst (canLaunchSecondary (15 * Second)
      \<lparr>launchingPrimary = False, launchingSecondary = False, lastLaunchAttempt = 0,
        failedAttempts = 3\<rparr>)
   \<and> failedAttempts (clearLaunchState True False
      \<lparr>launchingPrimary = True, launchingSecondary = False, lastLaunchAttempt = 0,
        failedAttempts = 3\<rparr>) = 4"
proof -
  let ?ls = "\<lparr>launchingPrimary = False, launchingSecondary = False, lastLaunchAttempt = 0,
    failedAttempts = 3\<rparr>"
  let ?lp = "\<lparr>launchingPrimary = True, launchingSecondary = False, lastLaunchAttempt = 0,
    failedAttempts = 3\<rparr>"
  have b: "0 \<le> failedAttempts ?ls \<and> failedAttempts ?ls \<le> 922337203"
    "0 \<le> failedAttempts ?lp \<and> failedAttempts ?lp \<le> 922337203"
    by simp_all
  have s: "time_Since (30 * Second) 0 = 30 * Second"
    "time_Since (30 * Second - 1) 0 = 30 * Second - 1"
    "time_Since (15 * Second) 0 = 15 * Second"
    by (simp_all add: time_Since_def maxDuration_def minDuration_def Second_def)
  from launch_gating [of ?ls "30 * Second" True] b(1) s(1)
  have 1: "fst (canLaunchPrimary (30 * Second) ?ls)" by simp
  from launch_gating [of ?ls "30 * Second - 1" True] b(1) s(2)
  have 2: "\<not> fst (canLaunchPrimary (30 * Second - 1) ?ls)" by (simp add: Second_def)
  from launch_gating [of ?ls "15 * Second" True] b(1) s(3)
  have 3: "fst (canLaunchSecondary (15 * Second) ?ls)" by simp
  from launch_gating [of ?lp 0 True] b(2)
  have 4: "failedAttempts (clearLaunchState True False ?lp) = 4" by simp
  from 1 2 3 4 show ?thesis by simp
qed

text \<open>
  The deferred call of \<open>launchPrimarySession\<close> runs after the explicit one, so a launch
  that succeeded leaves the count of failed attempts at 1.
\<close>

lemma launch_success_leaves_one_failure:
  "failedAttempts (launchPrimarySession_state Launched ls) = 1"
  by (simp add: launchPrimarySession_state_def clearLaunchState_def wrap64_def)

section \<open>Properties of the rendezvous poll\<close>

lemma poll_characterised:
  "(\<forall>i < length (snd (poll store lat None key dl now)).
        snd (poll store lat None key dl now) ! i = (key, poll_time lat now i)
        \<and> poll_time lat now i < dl)
   \<and> (\<forall>r. fst (poll store lat None key dl now) = Inr r \<longrightarrow>
        snd (poll store lat None key dl now) \<noteq> []
        \<and> decoded (store key (poll_time lat now
              (length (snd (poll store lat None key dl now)) - 1))) = Some r)
   \<and> (\<forall>i. Suc i < length (snd (poll store lat None key dl now)) \<longrightarrow>
        decoded (store key (poll_time lat now i)) = None)
   \<and> (\<forall>e. fst (poll store lat None key dl now) = Inl e \<longrightarrow>
        e = ReplyTimeout
        \<and> (\<forall>i < length (snd (poll store lat None key dl now)).
              decoded (store key (poll_time lat now i)) = None)
        \<and> dl \<le> poll_time lat now (length (snd (poll store lat None key dl now))))"
proof (induction store lat "None :: nat option" key dl now rule: poll.induct)
  case (1 store lat key deadline now)
  show ?case
  proof (cases "now < deadline")
    case False
    then show ?thesis by (simp add: poll.simps)
  next
    case True
    show ?thesis
    proof (cases "decoded (store key now)")
      case (Some r)
      with True show ?thesis by (simp add: poll.simps)
    next
      case None
      let ?next = "now + lat now + ResponsePollInterval"
      obtain res log where p: "poll store lat None key deadline ?next = (res, log)"
        by (cases "poll store lat None key deadline ?next")
      from True None p have e: "poll store lat None key deadline now = (res, (key, now) # log)"
        by (subst poll.simps) simp
      have n: "?next = now + lat now + 500" by (simp add: ResponsePollInterval_def)
      from "1" [OF True _ None] p
      have ih: "(\<forall>i < length log. log ! i = (key, poll_time lat ?next i)
            \<and> poll_time lat ?next i < deadline)"
        "(\<forall>r. res = Inr r \<longrightarrow> log \<noteq> []
            \<and> decoded (store key (poll_time lat ?next (length log - 1))) = Some r)"
        "(\<forall>i. Suc i < length log \<longrightarrow> decoded (store key (poll_time lat ?next i)) = None)"
        "(\<forall>e. res = Inl e \<longrightarrow> e = ReplyTimeout
            \<and> (\<forall>i < length log. decoded (store key (poll_time lat ?next i)) = None)
            \<and> deadline \<le> poll_time lat ?next (length log))"
        by simp_all
      have a: "\<forall>i < length ((key, now) # log).
          ((key, now) # log) ! i = (key, poll_time lat now i) \<and> poll_time lat now i < deadline"
      proof (intro allI impI)
        fix i assume "i < length ((key, now) # log)"
        then show "((key, now) # log) ! i = (key, poll_time lat now i)
            \<and> poll_time lat now i < deadline"
          using ih(1) True by (cases i) (simp_all add: n)
      qed
      have b: "\<forall>r. res = Inr r \<longrightarrow> (key, now) # log \<noteq> []
          \<and> decoded (store key (poll_time lat now (length ((key, now) # log) - 1))) = Some r"
      proof (intro allI impI)
        fix r assume "res = Inr r"
        with ih(2) have "log \<noteq> []"
          "decoded (store key (poll_time lat ?next (length log - 1))) = Some r" by simp_all
        then show "(key, now) # log \<noteq> []
            \<and> decoded (store key (poll_time lat now (length ((key, now) # log) - 1))) = Some r"
          by (cases log) (simp_all add: n)
      qed
      have c: "\<forall>i. Suc i < length ((key, now) # log) \<longrightarrow>
          decoded (store key (poll_time lat now i)) = None"
      proof (intro allI impI)
        fix i assume "Suc i < length ((key, now) # log)"
        then show "decoded (store key (poll_time lat now i)) = None"
          using ih(3) None by (cases i) (simp_all add: n)
      qed
      have d: "\<forall>e. res = Inl e \<longrightarrow> e = ReplyTimeout
          \<and> (\<forall>i < length ((key, now) # log). decoded (store key (poll_time lat now i)) = None)
          \<and> deadline \<le> poll_time lat now (length ((key, now) # log))"
      proof (intro allI impI)
        fix e assume r: "res = Inl e"
        with ih(4) have e: "e = ReplyTimeout"
          and all: "\<forall>i < length log. decoded (store key (poll_time lat ?next i)) = None"
          and dl: "deadline \<le> poll_time lat ?next (length log)" by simp_all
        have "\<forall>i < length ((key, now) # log). decoded (store key (poll_time lat now i)) = None"
        proof (intro allI impI)
          fix i assume "i < length ((key, now) # log)"
          then show "decoded (store key (poll_time lat now i)) = None"
            using all None by (cases i) (simp_all add: n)
        qed
        with e dl show "e = ReplyTimeout
            \<and> (\<forall>i < length ((key, now) # log). decoded (store key (poll_time lat now i)) = None)
            \<and> deadline \<le> poll_time lat now (length ((key, now) # log))"
          by (simp add: n)
      qed
      from a b c d show ?thesis unfolding e by simp
    qed
  qed
qed

lemma poll_time_no_latency: "poll_time no_latency now i = now + 500 * i"
  by (induction i arbitrary: now) (simp_all add: no_latency_def)

text \<open>
  C5, as the specification states it, fails on the key: for session \<open>abc\<close> the first
  fetch does not ask for \<open>reply/abc.json\<close> (it asks for \<open>punch-response/abc.json\<close>).
\<close>

theorem await_reply_key_counterexample:
  "fst (snd (WaitForLambdaResponse empty_store no_latency None ''abc'' 1000 0) ! 0)
     \<noteq> ''reply/abc.json''"
  by (simp add: WaitForLambdaResponse_def ResponseKey_def poll.simps ResponsePollInterval_def
      empty_store_def no_latency_def)

text \<open>
  C5, amended. For every session id, while the context is not cancelled, the wait
  fetches the key \<open>punch-response/{session_id}.json\<close> at the times of the poll schedule
  (each fetch followed by a wait of 500 ms, so every 500 ms when fetches take no time),
  every fetch starting before the deadline. It returns the worker's reply exactly when a
  fetch delivers an object that decodes, which is then the last fetch, all earlier ones
  having delivered none; and it fails, with the timeout error and no other, only when
  no fetch delivered a reply and the next poll would start at or after the deadline.
\<close>

theorem await_reply_polls:
  "(\<forall>i < length (snd (WaitForLambdaResponse store lat None sid timeout now)).
        snd (WaitForLambdaResponse store lat None sid timeout now) ! i
          = (''punch-response/'' @ sid @ ''.json'', poll_time lat now i)
        \<and> poll_time lat now i < now + timeout)
   \<and> (\<forall>r. fst (WaitForLambdaResponse store lat None sid timeout now) = Inr r \<longrightarrow>
        snd (WaitForLambdaResponse store lat None sid timeout now) \<noteq> []
        \<and> decoded (store (''punch-response/'' @ sid @ ''.json'') (poll_time lat now
              (length (snd (WaitForLambdaResponse store lat None sid timeout now)) - 1)))
            = Some r)
   \<and> (\<forall>i. Suc i < length (snd (WaitForLambdaResponse store lat None sid timeout now)) \<longrightarrow>
        decoded (store (''punch-response/'' @ sid @ ''.json'') (poll_time lat now i)) = None)
   \<and> (\<forall>e. fst (WaitForLambdaResponse store lat None sid timeout now) = Inl e \<longrightarrow>
        e = ReplyTimeout
        \<and> (\<forall>i < length (snd (WaitForLambdaResponse store lat None sid timeout now)).
              decoded (store (''punch-response/'' @ sid @ ''.json'') (poll_time lat now i))
                = None)
        \<and> now + timeout
            \<le> poll_time lat now
                 (length (snd (WaitForLambdaResponse store lat None sid timeout now))))
   \<and> poll_time no_latency now i = now + 500 * i"
  using poll_characterised [of store lat "ResponseKey sid" "now + timeout" now]
    poll_time_no_latency [of now i]
  unfolding WaitForLambdaResponse_def ResponseKey_def by simp

lemma wait_example_reply:
  "WaitForLambdaResponse (store_with_reply 700 example_reply) no_latency None ''abc'' 2000 0
     = (Inr example_reply,
        [(''punch-response/abc.json'', 0), (''punch-response/abc.json'', 500),
         (''punch-response/abc.json'', 1000)])"
  by (simp add: WaitForLambdaResponse_def ResponseKey_def poll.simps ResponsePollInterval_def
      store_with_reply_def no_latency_def example_reply_def)

lemma wait_example_timeout:
  "WaitForLambdaResponse empty_store no_latency None ''abc'' 1000 0
     = (Inl ReplyTimeout,
        [(''punch-response/abc.json'', 0), (''punch-response/abc.json'', 500)])"
  by (simp add: WaitForLambdaResponse_def ResponseKey_def poll.simps ResponsePollInterval_def
      empty_store_def no_latency_def)

theorem await_reply_polls_witness:
  "fst (WaitForLambdaResponse (store_with_reply 700 example_reply) no_latency None ''abc'' 2000 0)
     = Inr example_reply
   \<and> decoded (store_with_reply 700 example_reply ''punch-response/abc.json''
        (poll_time no_latency 0 2)) = Some example_reply
   \<and> decoded (store_with_reply 700 example_reply ''punch-response/abc.json''
        (poll_time no_latency 0 1)) = None
   \<and> fst (WaitForLambdaResponse empty_store no_latency None ''abc'' 1000 0) = Inl ReplyTimeout
   \<and> 0 + 1000 \<le> poll_time no_latency 0 2"
proof -
  note a = await_reply_polls [of "store_with_reply 700 example_reply" no_latency "''abc''"
      2000 0 0]
  note b = await_reply_polls [of empty_store no_latency "''abc''" 1000 0 0]
  have a1: "fst (WaitForLambdaResponse (store_with_reply 700 example_reply) no_latency None
      ''abc'' 2000 0) = Inr example_reply"
    and a2: "length (snd (WaitForLambdaResponse (store_with_reply 700 example_reply) no_latency
      None ''abc'' 2000 0)) = 3"
    by (simp_all add: wait_example_reply)
  have b1: "fst (WaitForLambdaResponse empty_store no_latency None ''abc'' 1000 0)
      = Inl ReplyTimeout"
    and b2: "length (snd (WaitForLambdaResponse empty_store no_latency None ''abc'' 1000 0)) = 2"
    by (simp_all add: wait_example_timeout)
  from a a1 a2 have 1: "decoded (store_with_reply 700 example_reply ''punch-response/abc.json''
      (poll_time no_latency 0 2)) = Some example_reply"
    by simp
  from a a2 have q: "decoded (store_with_reply 700 example_reply ''punch-response/abc.json''
      (poll_time no_latency 0 i)) = None" if "i < 2" for i
    using that by simp
  have 2: "decoded (store_with_reply 700 example_reply ''punch-response/abc.json''
      (poll_time no_latency 0 1)) = None"
    by (rule q) simp
  from b b1 b2 have 3: "0 + 1000 \<le> poll_time no_latency 0 2"
    by simp
  from a1 1 2 b1 3 show ?thesis by simp
qed

section \<open>Properties of the hole puncher\<close>

lemma punch_inv_init: "punch_inv sid remote punch_init"
  by (simp add: punch_inv_def punch_init_def)

lemma punch_inv_step:
  assumes "punch_inv sid remote st"
  shows "punch_inv sid remote (punch_step sid remote st ev)"
proof (cases ev)
  case SenderStep
  with assms show ?thesis
    by (auto simp: punch_inv_def)
next
  case (ReaderStep out)
  with assms show ?thesis
    by (auto simp: punch_inv_def)
next
  case TimerFires
  with assms show ?thesis by (auto simp: punch_inv_def)
next
  case MainSuccess
  with assms show ?thesis by (auto simp: punch_inv_def)
next
  case MainTimeout
  with assms show ?thesis by (auto simp: punch_inv_def)
next
  case MainFinish
  with assms show ?thesis by (auto simp: punch_inv_def)
qed

lemma punch_inv_foldl:
  "punch_inv sid remote st \<Longrightarrow> punch_inv sid remote (foldl (punch_step sid remote) st evs)"
  by (induction evs arbitrary: st) (simp_all add: punch_inv_step)

lemma punch_inv_run: "punch_inv sid remote (PerformNATHolePunch sid remote evs)"
  unfolding PerformNATHolePunch_def by (rule punch_inv_foldl [OF punch_inv_init])


lemma HasPrefix_PUNCH: "HasPrefix data ''PUNCH:'' \<longleftrightarrow> take 6 data = ''PUNCH:''"
proof -
  have l: "length ''PUNCH:'' = 6" by simp
  have "6 \<le> length data" if a: "take 6 data = ''PUNCH:''"
  proof -
    from a have "length (take 6 data) = length ''PUNCH:''" by (rule arg_cong)
    then have "min (length data) 6 = 6" by (simp only: length_take l)
    then show ?thesis by simp
  qed
  then show ?thesis unfolding HasPrefix_def l by blast
qed

lemma punch_matches_same_length:
  "length (IP addr) = length (IP remoteAddr) \<Longrightarrow>
     punch_matches remoteAddr (Datagram addr data)
       \<longleftrightarrow> IP addr = IP remoteAddr \<and> Port addr = Port remoteAddr \<and> take 6 data = ''PUNCH:''"
  by (simp add: IP_Equal_def HasPrefix_PUNCH)

lemma punch_return_clears_deadline:
  "(\<forall>r. main st \<noteq> Returned r) \<Longrightarrow> main (punch_step sid remote st ev) = Returned r' \<Longrightarrow>
     \<not> readDeadline (punch_step sid remote st ev)"
  by (cases ev) (auto split: if_splits)

text \<open>
  C6, as the specification states it, fails. With the peer's datagram received and the
  success taken when one datagram of the burst has been sent, the caller does not return:
  it is still waiting for the sender; it returns Ok only after the sender has sent all 50
  datagrams. And a timeout can be returned although a matching datagram has been
  received, when the timer fires before the caller takes the success.
\<close>

theorem hole_punch_counterexample:
  "main (PerformNATHolePunch ''abc'' example_peer (early_success @ [MainFinish])) = AwaitingSender
   \<and> length (sent (PerformNATHolePunch ''abc'' example_peer (early_success @ [MainFinish]))) = 1
   \<and> main (PerformNATHolePunch ''abc'' example_peer
        (early_success @ replicate 50 SenderStep @ [MainFinish])) = Returned None
   \<and> length (sent (PerformNATHolePunch ''abc'' example_peer
        (early_success @ replicate 50 SenderStep @ [MainFinish]))) = 50
   \<and> main (PerformNATHolePunch ''abc'' example_peer
        [ReaderStep (Datagram example_peer ''PUNCH:abc:0''), TimerFires, MainTimeout])
       = Returned (Some PunchTimeout)"
  by code_simp

text \<open>
  C6, amended. In every state of every schedule: the reader has declared success if and
  only if a datagram has been received whose source equals the peer address (IP and port;
  for addresses of the same length, the same bytes) and whose payload begins with
  \<open>PUNCH:\<close>, and that datagram is the last one read, none before it matching. The
  caller takes a success only from the reader, then waits for the burst emitter, and when
  it has returned Ok the emitter has sent all 50 datagrams of the burst and the read
  deadline is clear. The only error returned is the timeout, and only after the overall
  timer has fired. The step in which the caller returns, on either path, leaves the read
  deadline cleared.
\<close>

theorem hole_punch_outcome:
  "((reader (PerformNATHolePunch sid remoteAddr evs) \<noteq> Reading)
      \<longleftrightarrow> (\<exists>out \<in> set (received (PerformNATHolePunch sid remoteAddr evs)).
             punch_matches remoteAddr out))
   \<and> (reader (PerformNATHolePunch sid remoteAddr evs) \<noteq> Reading \<longrightarrow>
        punch_matches remoteAddr (last (received (PerformNATHolePunch sid remoteAddr evs)))
        \<and> (\<forall>out \<in> set (butlast (received (PerformNATHolePunch sid remoteAddr evs))).
              \<not> punch_matches remoteAddr out))
   \<and> (main (PerformNATHolePunch sid remoteAddr evs) = AwaitingSender
        \<or> main (PerformNATHolePunch sid remoteAddr evs) = Returned None \<longrightarrow>
        reader (PerformNATHolePunch sid remoteAddr evs) = ReaderDone)
   \<and> (main (PerformNATHolePunch sid remoteAddr evs) = Returned None \<longrightarrow>
        sent (PerformNATHolePunch sid remoteAddr evs) = map (punch_message sid) [0..<50]
        \<and> punchDone (PerformNATHolePunch sid remoteAddr evs)
        \<and> \<not> readDeadline (PerformNATHolePunch sid remoteAddr evs))
   \<and> (\<forall>e. main (PerformNATHolePunch sid remoteAddr evs) = Returned (Some e) \<longrightarrow>
        e = PunchTimeout \<and> timerFired (PerformNATHolePunch sid remoteAddr evs))
   \<and> ((\<forall>r. main (PerformNATHolePunch sid remoteAddr evs) \<noteq> Returned r)
        \<and> main (PerformNATHolePunch sid remoteAddr (evs @ [ev])) = Returned r' \<longrightarrow>
        \<not> readDeadline (PerformNATHolePunch sid remoteAddr (evs @ [ev])))
   \<and> (length (IP addr) = length (IP remoteAddr) \<longrightarrow>
        (punch_matches remoteAddr (Datagram addr data)
          \<longleftrightarrow> IP addr = IP remoteAddr \<and> Port addr = Port remoteAddr
              \<and> take 6 data = ''PUNCH:''))"
proof -
  let ?st = "PerformNATHolePunch sid remoteAddr evs"
  have inv: "punch_inv sid remoteAddr ?st" by (rule punch_inv_run)
  have a: "(reader ?st \<noteq> Reading) \<longleftrightarrow> (\<exists>out \<in> set (received ?st). punch_matches remoteAddr out)"
  proof (cases "reader ?st = Reading")
    case True
    with inv show ?thesis by (simp add: punch_inv_def)
  next
    case False
    with inv have "received ?st \<noteq> []" "punch_matches remoteAddr (last (received ?st))"
      by (simp_all add: punch_inv_def)
    then have "\<exists>out \<in> set (received ?st). punch_matches remoteAddr out"
      using last_in_set by blast
    with False show ?thesis by simp
  qed
  have b: "reader ?st \<noteq> Reading \<longrightarrow>
        punch_matches remoteAddr (last (received ?st))
        \<and> (\<forall>out \<in> set (butlast (received ?st)). \<not> punch_matches remoteAddr out)"
    using inv by (simp add: punch_inv_def)
  have c: "main ?st = AwaitingSender \<or> main ?st = Returned None \<longrightarrow> reader ?st = ReaderDone"
    using inv by (auto simp: punch_inv_def)
  have d: "main ?st = Returned None \<longrightarrow>
        sent ?st = map (punch_message sid) [0..<50] \<and> punchDone ?st \<and> \<not> readDeadline ?st"
  proof
    assume r: "main ?st = Returned None"
    with inv have p: "punchDone ?st" "\<not> readDeadline ?st" by (simp_all add: punch_inv_def)
    with inv have l: "length (sent ?st) = 50"
      by (simp add: punch_inv_def HolePunchPacketCount_def)
    from inv have "sent ?st = map (punch_message sid) [0..<length (sent ?st)]"
      by (simp add: punch_inv_def)
    with l have "sent ?st = map (punch_message sid) [0..<50]" by simp
    with p show "sent ?st = map (punch_message sid) [0..<50] \<and> punchDone ?st
        \<and> \<not> readDeadline ?st" by simp
  qed
  have e: "\<forall>e. main ?st = Returned (Some e) \<longrightarrow> e = PunchTimeout \<and> timerFired ?st"
  proof (intro allI impI)
    fix e assume "main ?st = Returned (Some e)"
    moreover have "e = PunchTimeout" by (cases e) simp
    ultimately show "e = PunchTimeout \<and> timerFired ?st"
      using inv by (simp add: punch_inv_def)
  qed
  have f: "(\<forall>r. main ?st \<noteq> Returned r)
        \<and> main (PerformNATHolePunch sid remoteAddr (evs @ [ev])) = Returned r' \<longrightarrow>
        \<not> readDeadline (PerformNATHolePunch sid remoteAddr (evs @ [ev]))"
    using punch_return_clears_deadline [of ?st sid remoteAddr ev r']
    by (simp add: PerformNATHolePunch_def)
  from a b c d e f punch_matches_same_length [of addr remoteAddr data]
  show ?thesis by blast
qed

theorem hole_punch_outcome_witness:
  "sent (PerformNATHolePunch ''abc'' example_peer
        (early_success @ replicate 50 SenderStep @ [MainFinish]))
     = map (punch_message ''abc'') [0..<50]
   \<and> \<not> readDeadline (PerformNATHolePunch ''abc'' example_peer
        (early_success @ replicate 50 SenderStep @ [MainFinish]))
   \<and> timerFired (PerformNATHolePunch ''abc'' example_peer
        ([ReaderStep ReadError, TimerFires] @ [MainTimeout]))
   \<and> \<not> readDeadline (PerformNATHolePunch ''abc'' example_peer
        ([ReaderStep ReadError, TimerFires] @ [MainTimeout]))
   \<and> punch_matches example_peer (Datagram example_peer ''PUNCH:abc:0'')"
proof -
  let ?ok = "early_success @ replicate 50 SenderStep"
  let ?to = "[ReaderStep ReadError, TimerFires]"
  have r1: "main (PerformNATHolePunch ''abc'' example_peer (?ok @ [MainFinish])) = Returned None"
    by code_simp
  have r2: "main (PerformNATHolePunch ''abc'' example_peer (?to @ [MainTimeout]))
      = Returned (Some PunchTimeout)"
    by code_simp
  have r3: "\<forall>r. main (PerformNATHolePunch ''abc'' example_peer ?to) \<noteq> Returned r"
    by (simp add: PerformNATHolePunch_def punch_init_def)
  have r4: "length (IP example_peer) = length (IP example_peer)" by simp
  have r5: "take 6 ''PUNCH:abc:0'' = ''PUNCH:''" by simp
  note ok = hole_punch_outcome [of "''abc''" example_peer "?ok @ [MainFinish]" MainFinish None
      example_peer "''PUNCH:abc:0''"]
  note to = hole_punch_outcome [of "''abc''" example_peer "?to @ [MainTimeout]" MainFinish None
      example_peer "''PUNCH:abc:0''"]
  note tr = hole_punch_outcome [of "''abc''" example_peer ?to MainTimeout "Some PunchTimeout"
      example_peer "''PUNCH:abc:0''"]
  from ok r1 have 1: "sent (PerformNATHolePunch ''abc'' example_peer (?ok @ [MainFinish]))
      = map (punch_message ''abc'') [0..<50]"
    and 2: "\<not> readDeadline (PerformNATHolePunch ''abc'' example_peer (?ok @ [MainFinish]))"
    by blast+
  from to r2 have 3: "timerFired (PerformNATHolePunch ''abc'' example_peer (?to @ [MainTimeout]))"
    by blast
  from tr r2 r3 have 4: "\<not> readDeadline (PerformNATHolePunch ''abc'' example_peer
      (?to @ [MainTimeout]))"
    by blast
  from ok r4 r5 have 5: "punch_matches example_peer (Datagram example_peer ''PUNCH:abc:0'')"
    by blast
  from 1 2 3 4 5 show ?thesis by simp
qed

section \<open>Properties of the session list\<close>

lemma role_simps [simp]:
  "IsPrimary (SetHealthy s h) = IsPrimary s"
  "IsSecondary (SetHealthy s h) = IsSecondary s"
  "IsPrimary (s\<lparr>quic_closed := c\<rparr>) = IsPrimary s"
  "IsSecondary (s\<lparr>quic_closed := c\<rparr>) = IsSecondary s"
  "IsPrimary (with_role s RolePrimary)"
  "\<not> IsSecondary (with_role s RolePrimary)"
  "IsSecondary (with_role s RoleSecondary)"
  "\<not> IsPrimary (with_role s RoleSecondary)"
  "\<not> IsPrimary (with_role s RoleDraining)"
  "\<not> IsSecondary (with_role s RoleDraining)"
  by (simp_all add: IsPrimary_def IsSecondary_def SetHealthy_def with_role_def RolePrimary_def
      RoleSecondary_def RoleDraining_def)

lemma nth_list_update_any: "xs[i := x] ! j = (if i = j \<and> i < length xs then x else xs ! j)"
  by (cases "i < length xs") (simp_all add: nth_list_update list_update_beyond)

lemma cm_inv_Start: "cm_inv (cm_Start sid)"
  by (simp add: cm_inv_def cm_Start_def)

lemma cm_inv_checkSessions: "cm_inv cm \<Longrightarrow> cm_inv (checkSessions now ttl_due cm)"
  by (auto simp: cm_inv_def checkSessions_def Let_def deref_def split: prod.splits bool.splits)

lemma cm_inv_heap_change:
  assumes inv: "cm_inv cm"
    and len: "length h = length (cm_heap cm)"
    and sec: "\<And>p. p \<in> set (cm_sessions cm) \<Longrightarrow> IsSecondary (h ! p) \<Longrightarrow> IsSecondary (cm_heap cm ! p)"
    and prim: "\<And>p q. p \<in> set (cm_sessions cm) \<Longrightarrow> q \<in> set (cm_sessions cm) \<Longrightarrow>
      IsPrimary (h ! p) \<Longrightarrow> IsPrimary (h ! q) \<Longrightarrow> p = q"
  shows "cm_inv (cm\<lparr>cm_heap := h\<rparr>)"
proof -
  from inv have a: "\<forall>p \<in> set (cm_sessions cm). p < length (cm_heap cm)"
    and b: "distinct (cm_sessions cm)"
    and d: "\<forall>p \<in> set (cm_sessions cm). \<forall>q \<in> set (cm_sessions cm).
            IsSecondary (cm_heap cm ! p) \<and> IsSecondary (cm_heap cm ! q) \<longrightarrow> p = q"
    by (simp_all add: cm_inv_def deref_def)
  have d': "\<forall>p \<in> set (cm_sessions cm). \<forall>q \<in> set (cm_sessions cm).
            IsSecondary (h ! p) \<and> IsSecondary (h ! q) \<longrightarrow> p = q"
    using d sec by blast
  have c': "\<forall>p \<in> set (cm_sessions cm). \<forall>q \<in> set (cm_sessions cm).
            IsPrimary (h ! p) \<and> IsPrimary (h ! q) \<longrightarrow> p = q"
    using prim by blast
  from a b c' d' len show ?thesis
    by (simp add: cm_inv_def deref_def)
qed

lemma cm_inv_promote:
  assumes inv: "cm_inv cm"
  shows "cm_inv (promoteSecondary s cm)"
proof (cases "IsHealthy (deref cm s)")
  case False
  with assms show ?thesis by (simp add: promoteSecondary_def)
next
  case True
  define h1 where "h1 = (cm_heap cm)[s := with_role (deref cm s) RolePrimary]"
  have h1_other: "h1 ! p = cm_heap cm ! p" if "p \<noteq> s" for p
    using that by (simp add: h1_def)
  have h1_s: "\<not> IsSecondary (h1 ! s) \<or> h1 ! s = cm_heap cm ! s"
    by (cases "s < length (cm_heap cm)") (simp_all add: h1_def list_update_beyond)
  have h1_sec: "IsSecondary (cm_heap cm ! p)" if "IsSecondary (h1 ! p)" for p
    using that h1_other [of p] h1_s by (cases "p = s") auto
  have len1: "length h1 = length (cm_heap cm)" by (simp add: h1_def)
  from inv have prim: "\<And>p q. p \<in> set (cm_sessions cm) \<Longrightarrow> q \<in> set (cm_sessions cm) \<Longrightarrow>
      IsPrimary (cm_heap cm ! p) \<Longrightarrow> IsPrimary (cm_heap cm ! q) \<Longrightarrow> p = q"
    by (simp add: cm_inv_def deref_def)
  from inv have bound: "\<And>p. p \<in> set (cm_sessions cm) \<Longrightarrow> p < length (cm_heap cm)"
    by (simp add: cm_inv_def)
  show ?thesis
  proof (cases "find (\<lambda>p. p \<noteq> s \<and> IsPrimary (deref cm p)) (cm_sessions cm)")
    case None
    then have none: "\<not> IsPrimary (cm_heap cm ! p)" if "p \<in> set (cm_sessions cm)" "p \<noteq> s" for p
      using that by (auto simp: find_None_iff deref_def)
    from True None have e: "promoteSecondary s cm = cm\<lparr>cm_heap := h1\<rparr>"
      by (simp add: promoteSecondary_def Let_def h1_def)
    have only_s: "p = s" if "p \<in> set (cm_sessions cm)" "IsPrimary (h1 ! p)" for p
      using that none [of p] h1_other [of p] by (cases "p = s") auto
    show ?thesis unfolding e
    proof (rule cm_inv_heap_change [OF inv len1])
      fix p assume "p \<in> set (cm_sessions cm)" "IsSecondary (h1 ! p)"
      then show "IsSecondary (cm_heap cm ! p)" by (simp add: h1_sec)
    next
      fix p q assume "p \<in> set (cm_sessions cm)" "q \<in> set (cm_sessions cm)"
        "IsPrimary (h1 ! p)" "IsPrimary (h1 ! q)"
      then show "p = q" using only_s [of p] only_s [of q] by simp
    qed
  next
    case (Some old)
    then have old: "old \<in> set (cm_sessions cm)" "old \<noteq> s" "IsPrimary (cm_heap cm ! old)"
      by (auto simp: find_Some_iff deref_def)
    define h2 where "h2 = h1[old := with_role (h1 ! old) RoleDraining]"
    from True Some have e: "promoteSecondary s cm = cm\<lparr>cm_heap := h2\<rparr>"
      by (simp add: promoteSecondary_def Let_def h1_def h2_def)
    have len2: "length h2 = length (cm_heap cm)" by (simp add: h2_def len1)
    have old_lt: "old < length h1" using bound [OF old(1)] len1 by simp
    have h2_old: "\<not> IsPrimary (h2 ! old)" "\<not> IsSecondary (h2 ! old)"
      using old_lt by (simp_all add: h2_def)
    have h2_other: "h2 ! p = h1 ! p" if "p \<noteq> old" for p
      using that by (simp add: h2_def)
    have only_s: "p = s" if p: "p \<in> set (cm_sessions cm)" "IsPrimary (h2 ! p)" for p
    proof (rule ccontr)
      assume ne: "p \<noteq> s"
      from p(2) h2_old(1) have po: "p \<noteq> old" by auto
      with p(2) h2_other [of p] have "IsPrimary (h1 ! p)" by simp
      with ne h1_other [of p] have "IsPrimary (cm_heap cm ! p)" by simp
      from prim [OF p(1) old(1) this old(3)] po show False by simp
    qed
    show ?thesis unfolding e
    proof (rule cm_inv_heap_change [OF inv len2])
      fix p assume p: "p \<in> set (cm_sessions cm)" "IsSecondary (h2 ! p)"
      with h2_old(2) have "p \<noteq> old" by auto
      with p(2) h2_other [of p] have "IsSecondary (h1 ! p)" by simp
      then show "IsSecondary (cm_heap cm ! p)" by (rule h1_sec)
    next
      fix p q assume "p \<in> set (cm_sessions cm)" "q \<in> set (cm_sessions cm)"
        "IsPrimary (h2 ! p)" "IsPrimary (h2 ! q)"
      then show "p = q" using only_s [of p] only_s [of q] by simp
    qed
  qed
qed

lemma cm_inv_step: "cm_inv cm \<Longrightarrow> cm_inv (cm_step cm op)"
proof (cases op)
  case (CheckSessions now ttl_due)
  assume "cm_inv cm"
  with CheckSessions show ?thesis by (simp add: cm_inv_checkSessions)
next
  case (PromoteSecondary s)
  assume "cm_inv cm"
  then have "cm_inv (cm\<lparr>cm_watchers := remove1 s (cm_watchers cm)\<rparr>)"
    by (simp add: cm_inv_def deref_def)
  from cm_inv_promote [OF this] \<open>cm_inv cm\<close> PromoteSecondary show ?thesis by simp
next
  case (PrimaryLaunchReturns sid)
  assume "cm_inv cm"
  with PrimaryLaunchReturns show ?thesis
    by (auto simp: cm_inv_def deref_def nth_append list_ex_iff)
next
  case (SecondaryLaunchReturns sid)
  assume "cm_inv cm"
  with SecondaryLaunchReturns show ?thesis
    by (auto simp: cm_inv_def deref_def nth_append list_ex_iff)
next
  case (HealthChanges p h)
  assume "cm_inv cm"
  with HealthChanges show ?thesis
    by (auto simp: cm_inv_def deref_def nth_list_update_any)
next
  case (QuicCloses p)
  assume "cm_inv cm"
  with QuicCloses show ?thesis
    by (auto simp: cm_inv_def deref_def nth_list_update_any)
qed (auto simp: cm_inv_def deref_def)

lemma cm_inv_run: "cm_inv (cm_run sid ops)"
proof -
  have "cm_inv cm \<Longrightarrow> cm_inv (foldl cm_step cm ops)" for cm
    by (induction ops arbitrary: cm) (simp_all add: cm_inv_step)
  from this [OF cm_inv_Start] show ?thesis by (simp add: cm_run_def)
qed

lemma length_filter_at_most_one:
  assumes "distinct xs" "\<forall>x \<in> set xs. \<forall>y \<in> set xs. P x \<and> P y \<longrightarrow> x = y"
  shows "length (filter P xs) \<le> 1"
  using assms
proof (induction xs)
  case Nil
  then show ?case by simp
next
  case (Cons x xs)
  show ?case
  proof (cases "P x")
    case True
    with Cons.prems have "\<forall>y \<in> set xs. \<not> P y" by auto
    then have "filter P xs = []" by (simp add: filter_empty_conv)
    with True show ?thesis by simp
  next
    case False
    with Cons show ?thesis by simp
  qed
qed

text \<open>
  In every state the manager reaches by these operations, the list holds at most one
  primary and at most one secondary.
\<close>

lemma one_primary_one_secondary:
  "length (filter (\<lambda>p. IsPrimary (deref (cm_run sid ops) p)) (cm_sessions (cm_run sid ops))) \<le> 1
   \<and> length (filter (\<lambda>p. IsSecondary (deref (cm_run sid ops) p)) (cm_sessions (cm_run sid ops))) \<le> 1"
  using cm_inv_run [of sid ops]
    length_filter_at_most_one [of "cm_sessions (cm_run sid ops)" "\<lambda>p. IsPrimary (deref (cm_run sid ops) p)"]
    length_filter_at_most_one [of "cm_sessions (cm_run sid ops)" "\<lambda>p. IsSecondary (deref (cm_run sid ops) p)"]
  unfolding cm_inv_def by blast

section \<open>The session list can hold three sessions\<close>

text \<open>
  C1 bounds the session list by 2 in every reachable state. After the schedule
  \<open>promotion_race\<close> the list holds three sessions: a draining one, a secondary
  and a primary. The second guard of \<open>launchPrimarySession\<close> does not test the length
  of the list (that of \<open>launchSecondarySession\<close> does), and \<open>promoteSecondary\<close> does
  not test that the session it promotes is still in the list.
\<close>

theorem session_list_exceeds_two:
  "cm_sessions (cm_run ''s0'' promotion_race) = [0, 2, 3]
   \<and> roles (cm_run ''s0'' promotion_race) = [''draining'', ''secondary'', ''primary'']
   \<and> 2 < length (cm_sessions (cm_run ''s0'' promotion_race))"
  by code_simp

end
